theory Spec2Isabelle
  imports Complex_Main "HOL-Library.AList" "HOL-Library.FSet" "HOL-Library.Sublist"
begin

section \<open>Values exchanged with clients and with the price source\<close>

text \<open>
  A connection is the \<^verbatim>\<open>WebSocket\<close> object of \<^verbatim>\<open>backend/main.py\<close>. The object defines
  neither \<^verbatim>\<open>__eq__\<close> nor \<^verbatim>\<open>__hash__\<close>, so two connections are equal exactly when they are
  the same object; a handle of type \<open>nat\<close> stands for that identity.
\<close>

type_synonym conn = nat

text \<open>
  What \<^verbatim>\<open>json.loads\<close> can return. Python's \<^verbatim>\<open>int\<close> and \<^verbatim>\<open>float\<close> are both \<open>JNum\<close>: the
  code only tests them for truth and uses them as dictionary keys, where \<^verbatim>\<open>1 == 1.0\<close>
  (the non-finite floats that \<^verbatim>\<open>json.loads\<close> also accepts are left out).
  A \<open>JObj\<close> lists the entries of the resulting \<^verbatim>\<open>dict\<close>.
\<close>

datatype json =
    JNull
  | JBool bool
  | JNum real
  | JStr string
  | JArr "json list"
  | JObj "(string \<times> json) list"

text \<open>
  The values that end up as keys of \<^verbatim>\<open>subscriptions\<close>: strings, and numbers (a client may
  send \<^verbatim>\<open>{"action": "subscribe", "symbol": 5}\<close>; \<^verbatim>\<open>True\<close> is the key \<^verbatim>\<open>1\<close>).
\<close>

datatype symbol = SStr string | SNum real

text \<open>Instances of subclasses of \<^verbatim>\<open>Exception\<close>.\<close>

datatype exn = AttributeError | TypeError | WebSocketDisconnect | LibError string

text \<open>
  The three shapes of outbound message, before \<^verbatim>\<open>json.dumps\<close>:
  \<^verbatim>\<open>{"error": e}\<close>, \<^verbatim>\<open>{"type": "subscribed", "symbol": s}\<close> and
  \<^verbatim>\<open>{"type": "price", "symbol": s, "price": p, "ts": t}\<close> (\<open>None\<close> is JSON \<^verbatim>\<open>null\<close>).
\<close>

datatype outmsg =
    ErrorMsg string
  | Subscribed symbol
  | Price symbol "real option" int

section \<open>The registry: \<^verbatim>\<open>subscriptions\<close> and \<^verbatim>\<open>ws_to_symbol\<close>\<close>

text \<open>
  \<^verbatim>\<open>subscriptions\<close> is a \<^verbatim>\<open>defaultdict(set)\<close>: an association list keeps the insertion
  order that \<^verbatim>\<open>list(subscriptions.keys())\<close> returns. \<^verbatim>\<open>ws_to_symbol\<close> is a plain
  \<^verbatim>\<open>dict\<close> whose values are a symbol or \<^verbatim>\<open>None\<close>; it is never iterated.
\<close>

record registry =
  subscriptions :: "(symbol \<times> conn fset) list"
  ws_to_symbol :: "conn \<rightharpoonup> symbol option"

definition empty_registry :: registry where
  "empty_registry = \<lparr>subscriptions = [], ws_to_symbol = Map.empty\<rparr>"

definition keys :: "registry \<Rightarrow> symbol list" where
  "keys r = map fst (subscriptions r)"

text \<open>The set stored under a key; the empty set that a \<^verbatim>\<open>defaultdict\<close> would create otherwise.\<close>

definition getitem :: "(symbol \<times> conn fset) list \<Rightarrow> symbol \<Rightarrow> conn fset" where
  "getitem d k = (case map_of d k of None \<Rightarrow> {||} | Some S \<Rightarrow> S)"

text \<open>
  \<^verbatim>\<open>subscriptions[k]\<close>, \<^verbatim>\<open>subscriptions[k].discard(ws)\<close> and \<^verbatim>\<open>subscriptions[k].add(ws)\<close>:
  each one appends the key with an empty set first when the key is missing, and none
  removes a key.
\<close>

definition touch :: "(symbol \<times> conn fset) list \<Rightarrow> symbol \<Rightarrow> (symbol \<times> conn fset) list" where
  "touch d k = AList.update k (getitem d k) d"

definition discard :: "(symbol \<times> conn fset) list \<Rightarrow> symbol \<Rightarrow> conn \<Rightarrow> (symbol \<times> conn fset) list" where
  "discard d k ws = AList.update k (getitem d k |-| {|ws|}) d"

definition add :: "(symbol \<times> conn fset) list \<Rightarrow> symbol \<Rightarrow> conn \<Rightarrow> (symbol \<times> conn fset) list" where
  "add d k ws = AList.update k (finsert ws (getitem d k)) d"

text \<open>\<^verbatim>\<open>ws_to_symbol.get(ws)\<close>: \<^verbatim>\<open>None\<close> both for a missing entry and for a stored \<^verbatim>\<open>None\<close>.\<close>

definition dict_get :: "(conn \<rightharpoonup> symbol option) \<Rightarrow> conn \<Rightarrow> symbol option" where
  "dict_get m ws = (case m ws of None \<Rightarrow> None | Some v \<Rightarrow> v)"

text \<open>Python's truth test on a stored value (\<^verbatim>\<open>if prev:\<close>, \<^verbatim>\<open>if symbol:\<close>).\<close>

fun truthy :: "symbol \<Rightarrow> bool" where
  "truthy (SStr s) = (s \<noteq> [])"
| "truthy (SNum x) = (x \<noteq> 0)"

text \<open>Line 246, after \<^verbatim>\<open>ws.accept()\<close>: \<^verbatim>\<open>ws_to_symbol[ws] = None\<close>.\<close>

definition accept :: "registry \<Rightarrow> conn \<Rightarrow> registry" where
  "accept r ws = r\<lparr>ws_to_symbol := (ws_to_symbol r)(ws \<mapsto> None)\<rparr>"

text \<open>Lines 262-264: remove the connection from the set of its previous symbol.\<close>

definition discard_prev :: "registry \<Rightarrow> conn \<Rightarrow> registry" where
  "discard_prev r ws =
     (case dict_get (ws_to_symbol r) ws of
        None \<Rightarrow> r
      | Some prev \<Rightarrow>
          if truthy prev then r\<lparr>subscriptions := discard (subscriptions r) prev ws\<rparr> else r)"

text \<open>Lines 266-267: add the connection to the new symbol's set and record the symbol.\<close>

definition add_new :: "registry \<Rightarrow> conn \<Rightarrow> symbol \<Rightarrow> registry" where
  "add_new r ws symbol =
     r\<lparr>subscriptions := add (subscriptions r) symbol ws,
       ws_to_symbol := (ws_to_symbol r)(ws \<mapsto> Some symbol)\<rparr>"

text \<open>Lines 261-267 as one block.\<close>

definition subscribe :: "registry \<Rightarrow> conn \<Rightarrow> symbol \<Rightarrow> registry" where
  "subscribe r ws symbol = add_new (discard_prev r ws) ws symbol"

text \<open>
  Lines 272-276, the handler of \<^verbatim>\<open>WebSocketDisconnect\<close>: pop the entry of the connection and
  discard the connection from the set of the symbol that was recorded there.
\<close>

definition disconnect_cleanup :: "registry \<Rightarrow> conn \<Rightarrow> registry" where
  "disconnect_cleanup r ws =
     (let popped = dict_get (ws_to_symbol r) ws;
          r' = r\<lparr>ws_to_symbol := (ws_to_symbol r)(ws := None)\<rparr>
      in case popped of
           None \<Rightarrow> r'
         | Some symbol \<Rightarrow>
             if truthy symbol then r'\<lparr>subscriptions := discard (subscriptions r') symbol ws\<rparr> else r')"

text \<open>
  Lines 229-232, the handler of a failed send in \<^verbatim>\<open>poll_loop\<close>: discard the connection from
  the set of the symbol being broadcast and pop its entry.
\<close>

definition remove_dead :: "registry \<Rightarrow> symbol \<Rightarrow> conn \<Rightarrow> registry" where
  "remove_dead r symbol ws =
     r\<lparr>subscriptions := discard (subscriptions r) symbol ws,
       ws_to_symbol := (ws_to_symbol r)(ws := None)\<rparr>"

section \<open>The receive loop of \<^verbatim>\<open>websocket_endpoint\<close>\<close>

text \<open>\<^verbatim>\<open>obj.get(key)\<close>: only a \<^verbatim>\<open>dict\<close> has the method; a missing key gives \<^verbatim>\<open>None\<close>.\<close>

fun py_get :: "json \<Rightarrow> string \<Rightarrow> exn + json" where
  "py_get (JObj kvs) key = Inr (case map_of kvs key of None \<Rightarrow> JNull | Some v \<Rightarrow> v)"
| "py_get _ key = Inl AttributeError"

text \<open>
  What lines 258 and 266 make of the value of \<^verbatim>\<open>"symbol"\<close>: \<^verbatim>\<open>not symbol\<close> holds for
  \<^verbatim>\<open>None\<close>, \<^verbatim>\<open>False\<close>, zero and the empty string, list and dict; a non-empty list or dict
  is true but cannot be a dictionary key.
\<close>

datatype symbol_arg = Falsy | Key symbol | Unhashable

fun classify :: "json \<Rightarrow> symbol_arg" where
  "classify JNull = Falsy"
| "classify (JBool b) = (if b then Key (SNum 1) else Falsy)"
| "classify (JNum x) = (if x = 0 then Falsy else Key (SNum x))"
| "classify (JStr s) = (if s = [] then Falsy else Key (SStr s))"
| "classify (JArr xs) = (if xs = [] then Falsy else Unhashable)"
| "classify (JObj kvs) = (if kvs = [] then Falsy else Unhashable)"

text \<open>
  Lines 249-270, one pass of the loop body from the received text to the \<^verbatim>\<open>send_text\<close> it
  ends with. The text is given by what \<^verbatim>\<open>json.loads\<close> makes of it: \<open>Inl\<close> when it raises.
  The result is the registry and either the message handed to \<^verbatim>\<open>send_text\<close> or the
  exception that leaves the loop body (neither is a \<^verbatim>\<open>WebSocketDisconnect\<close>).
\<close>

definition on_message :: "registry \<Rightarrow> conn \<Rightarrow> exn + json \<Rightarrow> registry \<times> (exn + outmsg)" where
  "on_message r ws data =
     (case data of
        Inl e \<Rightarrow> (r, Inr (ErrorMsg ''invalid json''))
      | Inr obj \<Rightarrow>
          (case py_get obj ''action'' of
             Inl e \<Rightarrow> (r, Inl e)
           | Inr action \<Rightarrow>
               if action = JStr ''subscribe'' then
                 (case py_get obj ''symbol'' of
                    Inl e \<Rightarrow> (r, Inl e)
                  | Inr v \<Rightarrow>
                      (case classify v of
                         Falsy \<Rightarrow> (r, Inr (ErrorMsg ''no symbol provided''))
                       | Unhashable \<Rightarrow> (discard_prev r ws, Inl TypeError)
                       | Key symbol \<Rightarrow> (subscribe r ws symbol, Inr (Subscribed symbol))))
               else (r, Inr (ErrorMsg ''unknown action''))))"

section \<open>The price source: \<^verbatim>\<open>get_latest_price_sync\<close>\<close>

text \<open>
  The \<^verbatim>\<open>yfinance\<close> library is outside the repository; its three entry points used by lines
  195-209 are parameters, and each of them may raise:
  \<^item> \<open>Ticker\<close>: constructing \<^verbatim>\<open>yf.Ticker(symbol)\<close>, \<open>None\<close> when the constructor returns;
  \<^item> \<open>history\<close>: \<^verbatim>\<open>ticker.history(period="1d", interval="1m")\<close>, a frame or an exception;
  \<^item> \<open>info\<close>: the property \<^verbatim>\<open>ticker.info\<close>, a dictionary or an exception.
  Of a frame the code reads \<^verbatim>\<open>.empty\<close> and \<^verbatim>\<open>float(intraday["Close"].iloc[-1])\<close>; the
  second may raise as well. Of a value of the dictionary line 207 takes the truth test of
  \<^verbatim>\<open>or\<close> and \<^verbatim>\<open>float\<close> of it, which rounds and may raise (\<^verbatim>\<open>OverflowError\<close> for a large
  \<^verbatim>\<open>int\<close>, \<^verbatim>\<open>ValueError\<close> for a string); a value is given by these two outcomes. Prices are
  Python floats, read here as real numbers.
\<close>

datatype pyval = PyVal (is_true: bool) (as_float: "exn + real")

record frame =
  df_empty :: bool
  last_close :: "exn + real"

record yfinance =
  Ticker :: "symbol \<Rightarrow> exn option"
  history :: "symbol \<Rightarrow> exn + frame"
  info :: "symbol \<Rightarrow> exn + (string \<rightharpoonup> pyval)"

text \<open>
  \<^verbatim>\<open>a or b\<close> on what \<^verbatim>\<open>info.get\<close> returns, a value or \<^verbatim>\<open>None\<close>, and \<^verbatim>\<open>float\<close> of the outcome
  (\<^verbatim>\<open>float(None)\<close> raises \<^verbatim>\<open>TypeError\<close>).
\<close>

definition py_or :: "pyval option \<Rightarrow> pyval option \<Rightarrow> pyval option" where
  "py_or a b = (case a of None \<Rightarrow> b | Some x \<Rightarrow> if is_true x then a else b)"

definition py_float :: "pyval option \<Rightarrow> exn + real" where
  "py_float v = (case v of None \<Rightarrow> Inl TypeError | Some x \<Rightarrow> as_float x)"

text \<open>Lines 204-209: the second \<^verbatim>\<open>try\<close>, whose handler returns \<^verbatim>\<open>None\<close>.\<close>

definition info_fallback :: "yfinance \<Rightarrow> symbol \<Rightarrow> real option" where
  "info_fallback yf symbol =
     (case info yf symbol of
        Inl e \<Rightarrow> None
      | Inr d \<Rightarrow>
          (case py_float (py_or (d ''currentPrice'') (d ''regularMarketPrice'')) of
             Inl e \<Rightarrow> None
           | Inr p \<Rightarrow> Some p))"

text \<open>
  Lines 195-209. The constructor call of line 196 stands before the first \<^verbatim>\<open>try\<close>, so its
  exception leaves the function; the handler of the first \<^verbatim>\<open>try\<close> passes on to the
  fallback.
\<close>

definition get_latest_price_sync :: "yfinance \<Rightarrow> symbol \<Rightarrow> exn + real option" where
  "get_latest_price_sync yf symbol =
     (case Ticker yf symbol of
        Some e \<Rightarrow> Inl e
      | None \<Rightarrow>
          (case history yf symbol of
             Inl e \<Rightarrow> Inr (info_fallback yf symbol)
           | Inr intraday \<Rightarrow>
               if \<not> df_empty intraday then
                 (case last_close intraday of
                    Inl e \<Rightarrow> Inr (info_fallback yf symbol)
                  | Inr p \<Rightarrow> Inr (Some p))
               else Inr (info_fallback yf symbol)))"

text \<open>Lines 211-213: the same call on an executor thread; its result or exception comes back.\<close>

definition get_latest_price :: "yfinance \<Rightarrow> symbol \<Rightarrow> exn + real option" where
  "get_latest_price yf symbol = get_latest_price_sync yf symbol"

section \<open>One pass of \<^verbatim>\<open>poll_loop\<close>\<close>

text \<open>
  What a tick meets outside the program: the price source, the clock read at line 224
  when the payload of a symbol is built, the order in which line 225 lists the set of a
  symbol, and whether \<^verbatim>\<open>ws.send_text\<close> returns (\<open>True\<close>) or raises.
\<close>

record world =
  yf :: yfinance
  now :: "symbol \<Rightarrow> int"
  listing :: "symbol \<Rightarrow> conn list"
  send_text :: "conn \<Rightarrow> outmsg \<Rightarrow> bool"

text \<open>
  What a run does that can be observed: a call of the price source, a call of
  \<^verbatim>\<open>send_text\<close> with its message, and the line printed by the handler of line 233.
\<close>

datatype event = Fetch symbol | Send conn outmsg | Log exn

text \<open>
  \<^verbatim>\<open>list(subscriptions[symbol])\<close>: Python fixes no order for a set (it follows the hashes of
  the objects), so the order comes from outside as a list of handles. The members of the
  set are listed in the order of their first occurrence in that list; members that the
  list does not mention follow in ascending order. Every listing of the set without
  repetition is obtained this way.
\<close>

definition listed :: "conn list \<Rightarrow> conn fset \<Rightarrow> conn list" where
  "listed order S =
     filter (\<lambda>c. c |\<in>| S) (remdups order)
     @ filter (\<lambda>c. c \<notin> set order) (sorted_list_of_fset S)"

definition conns_of :: "conn list \<Rightarrow> registry \<Rightarrow> symbol \<Rightarrow> conn list" where
  "conns_of order r symbol = listed order (getitem (subscriptions r) symbol)"

text \<open>Lines 226-232: the inner loop over the connections listed at line 225.\<close>

fun send_all :: "world \<Rightarrow> symbol \<Rightarrow> outmsg \<Rightarrow> conn list \<Rightarrow> registry \<Rightarrow> registry \<times> event list" where
  "send_all w symbol payload [] r = (r, [])"
| "send_all w symbol payload (ws # conns) r =
     (case send_all w symbol payload conns
             (if send_text w ws payload then r else remove_dead r symbol ws) of
        (r', evs) \<Rightarrow> (r', Send ws payload # evs))"

text \<open>
  Lines 222-232: the loop over the symbols listed at line 219. An exception of
  \<^verbatim>\<open>get_latest_price\<close> ends the loop and is the third component of the result.
\<close>

fun poll_symbols :: "world \<Rightarrow> symbol list \<Rightarrow> registry \<Rightarrow> registry \<times> event list \<times> exn option" where
  "poll_symbols w [] r = (r, [], None)"
| "poll_symbols w (symbol # symbols) r =
     (case get_latest_price (yf w) symbol of
        Inl e \<Rightarrow> (r, [Fetch symbol], Some e)
      | Inr price \<Rightarrow>
          (case send_all w symbol (Price symbol price (now w symbol))
                  (conns_of (listing w symbol) r symbol)
                  (r\<lparr>subscriptions := touch (subscriptions r) symbol\<rparr>) of
             (r1, sent) \<Rightarrow>
               (case poll_symbols w symbols r1 of
                  (r2, evs, err) \<Rightarrow> (r2, Fetch symbol # sent @ evs, err))))"

text \<open>
  Lines 218-234: one pass of \<^verbatim>\<open>while True\<close>, without the sleep. The handler of line 233
  prints the exception and the pass is over.
\<close>

definition tick :: "world \<Rightarrow> registry \<Rightarrow> registry \<times> event list" where
  "tick w r =
     (let symbols = keys r
      in if symbols \<noteq> [] then
           (case poll_symbols w symbols r of
              (r', evs, None) \<Rightarrow> (r', evs)
            | (r', evs, Some e) \<Rightarrow> (r', evs @ [Log e]))
         else (r, []))"

text \<open>The calls of the price source in a trace, in order.\<close>

fun fetched :: "event list \<Rightarrow> symbol list" where
  "fetched [] = []"
| "fetched (Fetch k # evs) = k # fetched evs"
| "fetched (_ # evs) = fetched evs"

section \<open>The tasks of the event loop\<close>

text \<open>
  \<^verbatim>\<open>poll_loop\<close> and one \<^verbatim>\<open>websocket_endpoint\<close> per connection are \<^verbatim>\<open>asyncio\<close> tasks on one
  thread: a task runs until its next \<^verbatim>\<open>await\<close>, and the others run while it waits there.
  The state of the program is the registry together with the place where each task waits:
  \<^item> a handler waits for \<^verbatim>\<open>ws.accept()\<close> (\<open>Connecting\<close>), for \<^verbatim>\<open>ws.receive_text()\<close>
    (\<open>Receiving\<close>), for the \<^verbatim>\<open>ws.send_text\<close> of its reply (\<open>Replying\<close>), or has returned;
  \<^item> the poll loop sleeps, waits for \<^verbatim>\<open>get_latest_price\<close> of a symbol with the symbols
    still to come, or waits for \<^verbatim>\<open>ws.send_text\<close> of a payload to a connection, with the rest
    of the list taken at line 225 and the symbols still to come.
\<close>

datatype phase = Connecting | Receiving | Replying outmsg | Closed

datatype poll_pc =
    Sleeping
  | Fetching symbol "symbol list"
  | Pushing symbol outmsg conn "conn list" "symbol list"

record system =
  reg :: registry
  phase :: "conn \<Rightarrow> phase"
  poll :: poll_pc

definition init :: system where
  "init = \<lparr>reg = empty_registry, phase = (\<lambda>ws. Connecting), poll = Sleeping\<rparr>"

text \<open>
  A label names the \<^verbatim>\<open>await\<close> that completes and how: it returns, or it raises. The label
  of a price call that returns carries the price, the clock value of line 224 and the order
  in which line 225 lists the set.
\<close>

datatype label =
    Accepted conn
  | Received conn "exn + json"
  | ReceiveRaised conn exn
  | ReplySent conn
  | ReplyRaised conn exn
  | Woke
  | PriceReturned "real option" int "conn list"
  | PriceRaised exn
  | PushSent
  | PushRaised exn

text \<open>
  An exception inside the \<^verbatim>\<open>try\<close> of lines 244-276: only \<^verbatim>\<open>WebSocketDisconnect\<close> is handled,
  by the cleanup; any other exception leaves the handler with the registry as it is.
\<close>

definition handler_raised :: "system \<Rightarrow> conn \<Rightarrow> exn \<Rightarrow> system" where
  "handler_raised s ws e =
     s\<lparr>reg := (if e = WebSocketDisconnect then disconnect_cleanup (reg s) ws else reg s),
       phase := (phase s)(ws := Closed)\<rparr>"

definition next_symbol :: "symbol list \<Rightarrow> poll_pc" where
  "next_symbol symbols = (case symbols of [] \<Rightarrow> Sleeping | symbol # rest \<Rightarrow> Fetching symbol rest)"

definition next_conn :: "symbol \<Rightarrow> outmsg \<Rightarrow> conn list \<Rightarrow> symbol list \<Rightarrow> poll_pc" where
  "next_conn symbol payload conns rest =
     (case conns of [] \<Rightarrow> next_symbol rest | ws # conns' \<Rightarrow> Pushing symbol payload ws conns' rest)"

text \<open>
  One task runs from the completed \<^verbatim>\<open>await\<close> to its next one. \<open>None\<close>: no task waits where
  the label says. The events are the calls that the completed \<^verbatim>\<open>await\<close> had made.
\<close>

fun step :: "system \<Rightarrow> label \<Rightarrow> (system \<times> event list) option" where
  "step s (Accepted ws) =
     (if phase s ws = Connecting
      then Some (s\<lparr>reg := accept (reg s) ws, phase := (phase s)(ws := Receiving)\<rparr>, [])
      else None)"
| "step s (Received ws data) =
     (if phase s ws = Receiving
      then (case on_message (reg s) ws data of
              (r, Inr msg) \<Rightarrow> Some (s\<lparr>reg := r, phase := (phase s)(ws := Replying msg)\<rparr>, [])
            | (r, Inl e) \<Rightarrow> Some (handler_raised (s\<lparr>reg := r\<rparr>) ws e, []))
      else None)"
| "step s (ReceiveRaised ws e) =
     (if phase s ws = Receiving then Some (handler_raised s ws e, []) else None)"
| "step s (ReplySent ws) =
     (case phase s ws of
        Replying msg \<Rightarrow> Some (s\<lparr>phase := (phase s)(ws := Receiving)\<rparr>, [Send ws msg])
      | _ \<Rightarrow> None)"
| "step s (ReplyRaised ws e) =
     (case phase s ws of
        Replying msg \<Rightarrow> Some (handler_raised s ws e, [Send ws msg])
      | _ \<Rightarrow> None)"
| "step s Woke =
     (case poll s of
        Sleeping \<Rightarrow> Some (s\<lparr>poll := next_symbol (keys (reg s))\<rparr>, [])
      | _ \<Rightarrow> None)"
| "step s (PriceReturned price ts order) =
     (case poll s of
        Fetching symbol rest \<Rightarrow>
          Some (s\<lparr>reg := (reg s)\<lparr>subscriptions := touch (subscriptions (reg s)) symbol\<rparr>,
                  poll := next_conn symbol (Price symbol price ts)
                            (conns_of order (reg s) symbol) rest\<rparr>,
                [Fetch symbol])
      | _ \<Rightarrow> None)"
| "step s (PriceRaised e) =
     (case poll s of
        Fetching symbol rest \<Rightarrow> Some (s\<lparr>poll := Sleeping\<rparr>, [Fetch symbol, Log e])
      | _ \<Rightarrow> None)"
| "step s PushSent =
     (case poll s of
        Pushing symbol payload ws conns rest \<Rightarrow>
          Some (s\<lparr>poll := next_conn symbol payload conns rest\<rparr>, [Send ws payload])
      | _ \<Rightarrow> None)"
| "step s (PushRaised e) =
     (case poll s of
        Pushing symbol payload ws conns rest \<Rightarrow>
          Some (s\<lparr>reg := remove_dead (reg s) symbol ws,
                  poll := next_conn symbol payload conns rest\<rparr>,
                [Send ws payload])
      | _ \<Rightarrow> None)"

fun run :: "system \<Rightarrow> label list \<Rightarrow> (system \<times> event list) option" where
  "run s [] = Some (s, [])"
| "run s (l # ls) =
     (case step s l of
        None \<Rightarrow> None
      | Some (s', evs) \<Rightarrow>
          (case run s' ls of
             None \<Rightarrow> None
           | Some (s'', evs') \<Rightarrow> Some (s'', evs @ evs')))"

text \<open>
  The labels of a tick during which no handler runs: the price call of each symbol returns
  or raises as the world says, and so does each send.
\<close>

fun push_labels :: "world \<Rightarrow> outmsg \<Rightarrow> conn list \<Rightarrow> label list" where
  "push_labels w payload [] = []"
| "push_labels w payload (ws # conns) =
     (if send_text w ws payload then PushSent else PushRaised (LibError ''send failed''))
     # push_labels w payload conns"

fun poll_labels :: "world \<Rightarrow> symbol list \<Rightarrow> registry \<Rightarrow> label list" where
  "poll_labels w [] r = []"
| "poll_labels w (symbol # symbols) r =
     (case get_latest_price (yf w) symbol of
        Inl e \<Rightarrow> [PriceRaised e]
      | Inr price \<Rightarrow>
          PriceReturned price (now w symbol) (listing w symbol)
          # push_labels w (Price symbol price (now w symbol))
              (conns_of (listing w symbol) r symbol)
          @ poll_labels w symbols
              (fst (send_all w symbol (Price symbol price (now w symbol))
                      (conns_of (listing w symbol) r symbol)
                      (r\<lparr>subscriptions := touch (subscriptions r) symbol\<rparr>))))"

section \<open>Predicates of the statements\<close>

text \<open>
  The agreement of the two maps: a connection is in at most one set; a connection whose
  entry holds a symbol is in the set of that symbol and in no other; a connection whose
  entry holds \<^verbatim>\<open>None\<close>, or that has no entry, is in no set.
\<close>

definition agree :: "registry \<Rightarrow> bool" where
  "agree r \<longleftrightarrow>
     (\<forall>c k k'. c |\<in>| getitem (subscriptions r) k \<and> c |\<in>| getitem (subscriptions r) k' \<longrightarrow> k = k')
   \<and> (\<forall>c k. ws_to_symbol r c = Some (Some k) \<longrightarrow>
          c |\<in>| getitem (subscriptions r) k
        \<and> (\<forall>k'. k' \<noteq> k \<longrightarrow> c |\<notin>| getitem (subscriptions r) k'))
   \<and> (\<forall>c. dict_get (ws_to_symbol r) c = None \<longrightarrow> (\<forall>k. c |\<notin>| getitem (subscriptions r) k))"

text \<open>The subscribe command \<^verbatim>\<open>{"action": "subscribe", "symbol": v}\<close> as parsed.\<close>

definition subscribe_cmd :: "json \<Rightarrow> exn + json" where
  "subscribe_cmd v = Inr (JObj [(''action'', JStr ''subscribe''), (''symbol'', v)])"

text \<open>
  The inbound messages that lines 249-270 answer with an error: text that \<^verbatim>\<open>json.loads\<close>
  rejects; an object whose action is \<^verbatim>\<open>"subscribe"\<close> and whose symbol is missing or is a
  value Python counts as false, such as \<^verbatim>\<open>null\<close> or the empty string; an object with any
  other action, or with none.
\<close>

definition bad_request :: "exn + json \<Rightarrow> bool" where
  "bad_request data =
     (case data of
        Inl e \<Rightarrow> True
      | Inr (JObj kvs) \<Rightarrow>
          (if map_of kvs ''action'' = Some (JStr ''subscribe'')
           then (case map_of kvs ''symbol'' of None \<Rightarrow> True | Some v \<Rightarrow> classify v = Falsy)
           else True)
      | Inr _ \<Rightarrow> False)"

text \<open>Every symbol recorded in \<^verbatim>\<open>ws_to_symbol\<close> passes \<^verbatim>\<open>if prev:\<close>.\<close>

definition truthy_values :: "registry \<Rightarrow> bool" where
  "truthy_values r \<longleftrightarrow> (\<forall>c k. ws_to_symbol r c = Some (Some k) \<longrightarrow> truthy k)"

text \<open>The call of the price source for a symbol returns, with a price or with \<^verbatim>\<open>None\<close>.\<close>

definition returns :: "world \<Rightarrow> symbol \<Rightarrow> bool" where
  "returns w k = (case get_latest_price (yf w) k of Inl e \<Rightarrow> False | Inr p \<Rightarrow> True)"

text \<open>The events that send a price message for a given symbol.\<close>

fun about :: "symbol \<Rightarrow> event \<Rightarrow> bool" where
  "about k (Send c (Price k' p t)) = (k' = k)"
| "about k _ = False"

text \<open>
  A tick gets as far as symbol \<open>k\<close>: it is a key, and the call of the price source returned
  for every key before it.
\<close>

definition reached :: "world \<Rightarrow> registry \<Rightarrow> symbol \<Rightarrow> bool" where
  "reached w r k \<longleftrightarrow>
     k \<in> set (keys r) \<and> (\<forall>k' \<in> set (takeWhile (\<lambda>x. x \<noteq> k) (keys r)). returns w k')"

text \<open>
  How the keys of \<^verbatim>\<open>subscriptions\<close> change from one registry to a later one: the old key
  list is an initial segment of the new one, and the keys stay distinct.
\<close>

definition grows :: "registry \<Rightarrow> registry \<Rightarrow> bool" where
  "grows r r' \<longleftrightarrow> prefix (keys r) (keys r') \<and> (distinct (keys r) \<longrightarrow> distinct (keys r'))"

text \<open>
  A registry whose maps agree, that records only values passing the truth test, and that
  has no entry for a connection whose handler has not yet run line 246.
\<close>

definition consistent :: "system \<Rightarrow> bool" where
  "consistent s \<longleftrightarrow>
     agree (reg s) \<and> truthy_values (reg s)
   \<and> (\<forall>ws. phase s ws = Connecting \<longrightarrow> ws_to_symbol (reg s) ws = None)"

text \<open>
  Two ways a step can be out of order. A send of the poll loop raises for a connection
  that has left the set of the symbol being broadcast and is in another set. A subscribe
  command carries a non-empty list or object as its symbol, so that line 266 raises after
  line 264 has run.
\<close>

definition orderly :: "system \<Rightarrow> label \<Rightarrow> bool" where
  "orderly s l =
     (case l of
        PushRaised e \<Rightarrow>
          (case poll s of
             Pushing k p ws conns rest \<Rightarrow>
               ws |\<in>| getitem (subscriptions (reg s)) k
             \<or> dict_get (ws_to_symbol (reg s)) ws = None
           | _ \<Rightarrow> True)
      | Received ws data \<Rightarrow> snd (on_message (reg s) ws data) \<noteq> Inl TypeError
      | _ \<Rightarrow> True)"

fun orderly_run :: "system \<Rightarrow> label list \<Rightarrow> bool" where
  "orderly_run s [] = True"
| "orderly_run s (l # ls) =
     (orderly s l \<and> (case step s l of None \<Rightarrow> False | Some (s', evs) \<Rightarrow> orderly_run s' ls))"

text \<open>The labels of the handlers, and the labels of a send of the poll loop.\<close>

fun handler_label :: "label \<Rightarrow> bool" where
  "handler_label (Accepted ws) = True"
| "handler_label (Received ws data) = True"
| "handler_label (ReceiveRaised ws e) = True"
| "handler_label (ReplySent ws) = True"
| "handler_label (ReplyRaised ws e) = True"
| "handler_label _ = False"

fun push_label :: "label \<Rightarrow> bool" where
  "push_label PushSent = True"
| "push_label (PushRaised e) = True"
| "push_label _ = False"

text \<open>
  The replies of a handler are error messages and acknowledgements, never price messages:
  no handler waits in the \<^verbatim>\<open>send_text\<close> of a price message.
\<close>

fun price_msg :: "outmsg \<Rightarrow> bool" where
  "price_msg (Price k p t) = True"
| "price_msg _ = False"

definition no_price_reply :: "system \<Rightarrow> bool" where
  "no_price_reply s \<longleftrightarrow> (\<forall>ws msg. phase s ws = Replying msg \<longrightarrow> \<not> price_msg msg)"

section \<open>Concrete inputs\<close>

text \<open>
  A price source with one-minute data for \<^verbatim>\<open>AAPL\<close> only: \<^verbatim>\<open>history\<close> and \<^verbatim>\<open>info\<close> raise for
  every other symbol, and the constructor raises for \<^verbatim>\<open>BAD\<close>. Sets are listed with
  connection 2 before connection 1, and every send succeeds.
\<close>

definition demo_yf :: yfinance where
  "demo_yf =
     \<lparr>Ticker = (\<lambda>k. if k = SStr ''BAD'' then Some (LibError ''ticker'') else None),
      history = (\<lambda>k. if k = SStr ''AAPL''
                     then Inr \<lparr>df_empty = False, last_close = Inr 150.25\<rparr>
                     else Inl (LibError ''no data'')),
      info = (\<lambda>k. Inl (LibError ''no info''))\<rparr>"

definition demo_world :: world where
  "demo_world =
     \<lparr>yf = demo_yf, now = (\<lambda>k. 1700000000), listing = (\<lambda>k. [2, 1]),
      send_text = (\<lambda>ws msg. True)\<rparr>"

text \<open>Connection 1 on \<^verbatim>\<open>AAPL\<close> and connection 2 on \<^verbatim>\<open>MSFT\<close>.\<close>

definition two_symbols :: registry where
  "two_symbols =
     subscribe (accept (subscribe (accept empty_registry 1) 1 (SStr ''AAPL'')) 2) 2 (SStr ''MSFT'')"

text \<open>Connection 1 on \<^verbatim>\<open>BAD\<close>, subscribed first, and connection 2 on \<^verbatim>\<open>AAPL\<close>.\<close>

definition bad_first :: registry where
  "bad_first =
     subscribe (accept (subscribe (accept empty_registry 1) 1 (SStr ''BAD'')) 2) 2 (SStr ''AAPL'')"

text \<open>
  Connection 3 subscribes to \<^verbatim>\<open>BAD\<close> and disconnects; then connection 1 subscribes to
  \<^verbatim>\<open>AAPL\<close> and connection 2 to \<^verbatim>\<open>MSFT\<close>. The key \<^verbatim>\<open>BAD\<close> stays, first in the list, with an
  empty set.
\<close>

definition bad_abandoned :: registry where
  "bad_abandoned =
     subscribe (accept
       (subscribe (accept
          (disconnect_cleanup (subscribe (accept empty_registry 3) 3 (SStr ''BAD'')) 3)
        1) 1 (SStr ''AAPL''))
      2) 2 (SStr ''MSFT'')"

text \<open>
  Connection 1, subscribed to \<^verbatim>\<open>AAPL\<close>, sends the text \<^verbatim>\<open>[1]\<close>: well-formed JSON that is
  not an object.
\<close>

definition array_payload :: "label list" where
  "array_payload =
     [Accepted 1, Received 1 (subscribe_cmd (JStr ''AAPL'')), ReplySent 1,
      Received 1 (Inr (JArr [JNum 1]))]"

text \<open>Connections 1 and 2 both on \<^verbatim>\<open>AAPL\<close>.\<close>

definition one_symbol :: registry where
  "one_symbol =
     subscribe (accept (subscribe (accept empty_registry 1) 1 (SStr ''AAPL'')) 2) 2 (SStr ''AAPL'')"

text \<open>Connection 1 subscribes to \<^verbatim>\<open>AAPL\<close> and then disconnects.\<close>

definition come_and_gone :: "label list" where
  "come_and_gone =
     [Accepted 1, Received 1 (subscribe_cmd (JStr ''AAPL'')), ReplySent 1,
      ReceiveRaised 1 WebSocketDisconnect]"

definition left_behind :: registry where
  "left_behind = disconnect_cleanup (subscribe (accept empty_registry 1) 1 (SStr ''AAPL'')) 1"

text \<open>The same in two states: connection 1 subscribed and waiting, then gone.\<close>

definition one_subscriber :: system where
  "one_subscriber =
     \<lparr>reg = subscribe (accept empty_registry 1) 1 (SStr ''AAPL''),
      phase = (\<lambda>ws. Connecting)(1 := Receiving),
      poll = Sleeping\<rparr>"

definition no_subscriber :: system where
  "no_subscriber =
     \<lparr>reg = left_behind, phase = (\<lambda>ws. Connecting)(1 := Closed), poll = Sleeping\<rparr>"

text \<open>
  Connections 1 and 2 subscribe to \<^verbatim>\<open>AAPL\<close>. A tick fetches the price and lists both
  connections at line 225, connection 1 first. While the loop waits for its send to
  connection 1, the handler of connection 2 receives a subscribe command for \<^verbatim>\<open>MSFT\<close> and
  answers it. The send to connection 1 returns; the send to connection 2 is still to come.
\<close>

definition moved_during_broadcast :: "label list" where
  "moved_during_broadcast =
     [Accepted 1, Received 1 (subscribe_cmd (JStr ''AAPL'')), ReplySent 1,
      Accepted 2, Received 2 (subscribe_cmd (JStr ''AAPL'')), ReplySent 2,
      Woke, PriceReturned (Some 150.25) 1700000000 [1, 2],
      Received 2 (subscribe_cmd (JStr ''MSFT'')), ReplySent 2,
      PushSent]"

text \<open>Then the send to connection 2 raises.\<close>

definition stale_cleanup :: "label list" where
  "stale_cleanup = moved_during_broadcast @ [PushRaised (LibError ''send failed'')]"

text \<open>The handler of connection 2, still in its loop, then receives a subscribe command for \<^verbatim>\<open>TSLA\<close>.\<close>

definition stale_cleanup_then_subscribe :: "label list" where
  "stale_cleanup_then_subscribe = stale_cleanup @ [Received 2 (subscribe_cmd (JStr ''TSLA''))]"

text \<open>Connection 1, subscribed to \<^verbatim>\<open>AAPL\<close>, sends a subscribe command whose symbol is a list.\<close>

definition list_as_symbol :: "label list" where
  "list_as_symbol =
     [Accepted 1, Received 1 (subscribe_cmd (JStr ''AAPL'')), ReplySent 1,
      Received 1 (subscribe_cmd (JArr [JStr ''MSFT'']))]"

section \<open>Facts about the dictionary operations\<close>

lemmas registry_eval = empty_registry_def accept_def subscribe_def add_new_def discard_prev_def
  disconnect_cleanup_def remove_dead_def dict_get_def add_def discard_def touch_def getitem_def
  keys_def

lemmas task_eval = init_def subscribe_cmd_def on_message_def next_symbol_def next_conn_def
  conns_of_def listed_def handler_raised_def sorted_list_of_fset.rep_eq

lemma getitem_update: "getitem (AList.update k v d) k' = (if k' = k then v else getitem d k')"
  by (simp add: getitem_def update_conv')

lemma getitem_discard:
  "getitem (discard d k ws) k' = (if k' = k then getitem d k |-| {|ws|} else getitem d k')"
  by (simp add: discard_def getitem_update)

lemma getitem_add:
  "getitem (add d k ws) k' = (if k' = k then finsert ws (getitem d k) else getitem d k')"
  by (simp add: add_def getitem_update)

lemma getitem_touch: "getitem (touch d k) k' = getitem d k'"
  by (simp add: touch_def getitem_update)

lemma getitem_Nil: "getitem [] k = {||}"
  by (simp add: getitem_def)

lemma getitem_not_key: "getitem d k \<noteq> {||} \<Longrightarrow> k \<in> set (map fst d)"
  by (cases "map_of d k") (auto simp: getitem_def dest: map_of_SomeD intro: rev_image_eqI)

lemma add_after_discard: "add (discard d k ws) k ws = add d k ws"
  by (simp add: add_def discard_def getitem_update)

lemma add_add: "add (add d k ws) k ws = add d k ws"
  by (simp add: add_def getitem_update)

lemma update_prefix: "prefix (map fst d) (map fst (AList.update k v d))"
  by (simp add: update_keys)

lemma update_distinct: "distinct (map fst d) \<Longrightarrow> distinct (map fst (AList.update k v d))"
  by (rule distinct_update)

lemma update_key: "k \<in> fst ` set (AList.update k v d)"
  by (simp add: dom_update)

section \<open>Subscribing\<close>

text \<open>The handler stores only values that pass the truth test, and it stores them by \<open>subscribe\<close>.\<close>

lemma classify_truthy: "classify v = Key k \<Longrightarrow> truthy k"
  by (cases v) (auto split: if_splits)

lemma on_message_subscribe:
  assumes "classify v = Key k"
  shows "on_message r ws (subscribe_cmd v) = (subscribe r ws k, Inr (Subscribed k))"
  using assms by (simp add: on_message_def subscribe_cmd_def)

text \<open>
  C6. Subscribing is idempotent: for every registry, connection \<open>C\<close> and symbol \<open>S\<close>, running
  lines 261-267 for \<open>(C, S)\<close> twice in a row leaves both \<^verbatim>\<open>subscriptions\<close> and
  \<^verbatim>\<open>ws_to_symbol\<close> exactly as running them once does.
\<close>

theorem subscribe_idempotent: "subscribe (subscribe r C S) C S = subscribe r C S"
  by (cases "truthy S")
     (simp_all add: subscribe_def add_new_def discard_prev_def dict_get_def
        add_after_discard add_add)

text \<open>
  C7. Subscribing again replaces: when \<^verbatim>\<open>ws_to_symbol\<close> records symbol \<open>A\<close> for connection
  \<open>C\<close> (a value the handler stores, hence one that passes \<^verbatim>\<open>if prev:\<close>), subscribing \<open>C\<close>
  to a different symbol \<open>B\<close> takes \<open>C\<close> out of the set of \<open>A\<close>, puts it into the set of \<open>B\<close>
  and records \<open>B\<close> for \<open>C\<close>.
\<close>

theorem resubscribe_replaces:
  assumes "ws_to_symbol r C = Some (Some A)" and "truthy A" and "A \<noteq> B"
  shows "C |\<notin>| getitem (subscriptions (subscribe r C B)) A
       \<and> C |\<in>| getitem (subscriptions (subscribe r C B)) B
       \<and> ws_to_symbol (subscribe r C B) C = Some (Some B)"
  using assms
  by (simp add: subscribe_def add_new_def discard_prev_def dict_get_def getitem_add getitem_discard)

text \<open>C7 at a concrete input: connection 1 moves from \<^verbatim>\<open>AAPL\<close> to \<^verbatim>\<open>MSFT\<close>.\<close>

theorem resubscribe_replaces_witness:
  "ws_to_symbol (reg one_subscriber) 1 = Some (Some (SStr ''AAPL''))
   \<and> truthy (SStr ''AAPL'')
   \<and> SStr ''AAPL'' \<noteq> SStr ''MSFT''
   \<and> 1 |\<in>| getitem (subscriptions (reg one_subscriber)) (SStr ''AAPL'')
   \<and> 1 |\<notin>| getitem (subscriptions (subscribe (reg one_subscriber) 1 (SStr ''MSFT''))) (SStr ''AAPL'')
   \<and> 1 |\<in>| getitem (subscriptions (subscribe (reg one_subscriber) 1 (SStr ''MSFT''))) (SStr ''MSFT'')
   \<and> ws_to_symbol (subscribe (reg one_subscriber) 1 (SStr ''MSFT'')) 1 = Some (Some (SStr ''MSFT''))"
proof -
  have a: "ws_to_symbol (reg one_subscriber) 1 = Some (Some (SStr ''AAPL''))"
    by (simp add: one_subscriber_def registry_eval)
  have t: "truthy (SStr ''AAPL'')" by simp
  have n: "SStr ''AAPL'' \<noteq> SStr ''MSFT''" by simp
  have m: "1 |\<in>| getitem (subscriptions (reg one_subscriber)) (SStr ''AAPL'')"
    by (simp add: one_subscriber_def registry_eval)
  from resubscribe_replaces [OF a t n] a t n m show ?thesis by blast
qed

section \<open>Requests that are answered with an error\<close>

lemma on_message_bad:
  assumes "bad_request data"
  shows "\<exists>err. on_message r ws data = (r, Inr (ErrorMsg err))"
proof (cases data)
  case (Inl e)
  then show ?thesis by (simp add: on_message_def)
next
  case (Inr obj)
  with assms obtain kvs where obj: "obj = JObj kvs"
    by (cases obj) (simp_all add: bad_request_def)
  show ?thesis
  proof (cases "map_of kvs ''action'' = Some (JStr ''subscribe'')")
    case True
    with assms Inr obj show ?thesis
      by (auto simp: on_message_def bad_request_def split: option.splits)
  next
    case False
    with Inr obj show ?thesis
      by (auto simp: on_message_def split: option.splits)
  qed
qed

text \<open>
  Two inputs outside \<open>bad_request\<close> that end the session instead: well-formed JSON that is
  not an object has no \<^verbatim>\<open>get\<close>, and a non-empty list or object as symbol cannot be a key.
  In the second case the previous symbol's set has already lost the connection.
\<close>

lemma on_message_not_object:
  assumes "\<forall>kvs. obj \<noteq> JObj kvs"
  shows "on_message r ws (Inr obj) = (r, Inl AttributeError)"
  using assms by (cases obj) (simp_all add: on_message_def)

lemma on_message_unhashable:
  assumes "classify v = Unhashable"
  shows "on_message r ws (subscribe_cmd v) = (discard_prev r ws, Inl TypeError)"
  using assms by (simp add: on_message_def subscribe_cmd_def)

text \<open>
  For every inbound message that is malformed JSON, a subscribe command whose symbol is
  missing or empty, or an object with an unknown action, received by a handler that waits
  in \<^verbatim>\<open>receive_text\<close>: the loop body leaves the registry as it was and hands an error
  message to \<^verbatim>\<open>send_text\<close>; once that send returns, the handler waits in \<^verbatim>\<open>receive_text\<close>
  again, and the whole state is the one before the message.
\<close>

theorem bad_request_answered:
  assumes "bad_request data" and "phase s ws = Receiving"
  shows "\<exists>err. on_message (reg s) ws data = (reg s, Inr (ErrorMsg err))
             \<and> step s (Received ws data) = Some (s\<lparr>phase := (phase s)(ws := Replying (ErrorMsg err))\<rparr>, [])
             \<and> run s [Received ws data, ReplySent ws] = Some (s, [Send ws (ErrorMsg err)])"
proof -
  from on_message_bad [OF assms(1)] obtain err
    where m: "on_message (reg s) ws data = (reg s, Inr (ErrorMsg err))" by blast
  have same: "(phase s)(ws := Receiving) = phase s"
    using assms(2) by (simp add: fun_upd_idem)
  from m assms(2) same show ?thesis by (intro exI [of _ err]) simp
qed

text \<open>
  At concrete inputs: the three kinds of bad request, and connection 1, subscribed to
  \<^verbatim>\<open>AAPL\<close>, sending a subscribe command with the empty symbol.
\<close>

theorem bad_request_answered_witness:
  "bad_request (subscribe_cmd (JStr ''''))
   \<and> bad_request (Inl (LibError ''Expecting value''))
   \<and> bad_request (Inr (JObj [(''action'', JStr ''unsubscribe'')]))
   \<and> phase one_subscriber 1 = Receiving
   \<and> (\<exists>err. run one_subscriber [Received 1 (subscribe_cmd (JStr '''')), ReplySent 1]
               = Some (one_subscriber, [Send 1 (ErrorMsg err)]))"
proof -
  have b: "bad_request (subscribe_cmd (JStr ''''))"
    by (simp add: bad_request_def subscribe_cmd_def)
  have b2: "bad_request (Inl (LibError ''Expecting value''))"
    by (simp add: bad_request_def)
  have b3: "bad_request (Inr (JObj [(''action'', JStr ''unsubscribe'')]))"
    by (simp add: bad_request_def)
  have p: "phase one_subscriber 1 = Receiving"
    by (simp add: one_subscriber_def)
  from bad_request_answered [OF b p] b b2 b3 p show ?thesis by blast
qed

text \<open>
  A malformed payload that is well-formed JSON and not an object has no \<^verbatim>\<open>get\<close>: line 255
  raises \<^verbatim>\<open>AttributeError\<close> for every array, string, number, boolean and \<^verbatim>\<open>null\<close>. No reply
  is handed to \<^verbatim>\<open>send_text\<close>, the handler ends, and since the exception is not
  \<^verbatim>\<open>WebSocketDisconnect\<close> the cleanup of lines 272-276 does not run.
\<close>

lemma not_object_ends_handler:
  assumes "\<forall>kvs. obj \<noteq> JObj kvs" and "phase s ws = Receiving"
  shows "step s (Received ws (Inr obj)) = Some (s\<lparr>phase := (phase s)(ws := Closed)\<rparr>, [])"
  using assms on_message_not_object [of obj "reg s" ws]
  by (simp add: handler_raised_def)

text \<open>
  C5. The property that every malformed inbound payload is answered with an error message,
  with the connection left open and its registry state unchanged, fails at the run
  \<open>array_payload\<close>. Connection 1 subscribes to \<^verbatim>\<open>AAPL\<close>, is sent the acknowledgement, and
  then sends the text \<^verbatim>\<open>[1]\<close>. The only message it is ever sent is the acknowledgement: no
  error message follows. The handler has ended instead of waiting in \<^verbatim>\<open>receive_text\<close>,
  while the registry still holds the entry of the connection and its membership in the
  set of \<^verbatim>\<open>AAPL\<close>.
\<close>

theorem array_payload_ends_handler:
  "(case run init array_payload of
      None \<Rightarrow> False
    | Some (s, evs) \<Rightarrow>
        evs = [Send 1 (Subscribed (SStr ''AAPL''))]
      \<and> phase s 1 = Closed
      \<and> ws_to_symbol (reg s) 1 = Some (Some (SStr ''AAPL''))
      \<and> subscriptions (reg s) = [(SStr ''AAPL'', {|1|})])"
  by (simp add: array_payload_def task_eval registry_eval)

section \<open>The keys of \<^verbatim>\<open>subscriptions\<close> only grow\<close>

lemma grows_refl: "grows r r"
  by (simp add: grows_def)

lemma grows_trans: "grows r r' \<Longrightarrow> grows r' r'' \<Longrightarrow> grows r r''"
  by (auto simp: grows_def)

lemma grows_update:
  "subscriptions r' = AList.update k v (subscriptions r) \<Longrightarrow> grows r r'"
  by (simp add: grows_def keys_def update_prefix update_distinct)

lemma grows_same: "subscriptions r' = subscriptions r \<Longrightarrow> grows r r'"
  by (simp add: grows_def keys_def)

lemma grows_accept: "grows r (accept r ws)"
  by (rule grows_same) (simp add: accept_def)

lemma grows_discard_prev: "grows r (discard_prev r ws)"
  by (cases "dict_get (ws_to_symbol r) ws")
     (auto simp: discard_prev_def discard_def grows_refl intro: grows_update)

lemma grows_add_new: "grows r (add_new r ws k)"
  by (rule grows_update [where k = k]) (simp add: add_new_def add_def)

lemma grows_subscribe: "grows r (subscribe r ws k)"
  unfolding subscribe_def by (rule grows_trans [OF grows_discard_prev grows_add_new])

lemma grows_disconnect_cleanup: "grows r (disconnect_cleanup r ws)"
  by (cases "dict_get (ws_to_symbol r) ws")
     (auto simp: disconnect_cleanup_def Let_def discard_def intro: grows_update grows_same)

lemma grows_remove_dead: "grows r (remove_dead r k ws)"
  by (rule grows_update [where k = k]) (simp add: remove_dead_def discard_def)

lemma grows_touch: "grows r (r\<lparr>subscriptions := touch (subscriptions r) k\<rparr>)"
  by (rule grows_update [where k = k]) (simp add: touch_def)

lemma grows_on_message: "grows r (fst (on_message r ws data))"
  by (auto simp: on_message_def grows_refl grows_subscribe grows_discard_prev
        split: sum.splits symbol_arg.splits)

lemma grows_handler_raised: "grows (reg s) (reg (handler_raised s ws e))"
  by (simp add: handler_raised_def grows_refl grows_disconnect_cleanup)

lemma grows_step:
  assumes "step s l = Some (s', evs)"
  shows "grows (reg s) (reg s')"
proof (cases l)
  case (Received ws data)
  with assms grows_on_message [of "reg s" ws data] show ?thesis
    by (auto simp: handler_raised_def split: if_splits prod.splits sum.splits
          intro: grows_trans [OF _ grows_disconnect_cleanup])
next
  case (PriceReturned price ts order)
  with assms show ?thesis
    by (auto simp: grows_touch split: poll_pc.splits)
qed (use assms in \<open>auto simp: grows_refl grows_accept grows_handler_raised grows_remove_dead
       split: if_splits phase.splits poll_pc.splits\<close>)

lemma grows_run:
  assumes "run s ls = Some (s', evs)"
  shows "grows (reg s) (reg s')"
  using assms
proof (induction ls arbitrary: s evs)
  case Nil
  then show ?case by (simp add: grows_refl)
next
  case (Cons l ls)
  then obtain s1 e1 e2 where 1: "step s l = Some (s1, e1)" and 2: "run s1 ls = Some (s', e2)"
    by (auto split: option.splits prod.splits)
  from grows_step [OF 1] Cons.IH [OF 2] show ?case by (rule grows_trans)
qed

text \<open>Every state that the tasks reach from the start has distinct keys, as a \<^verbatim>\<open>dict\<close> has.\<close>

lemma reachable_distinct_keys:
  assumes "run init ls = Some (s, evs)"
  shows "distinct (keys (reg s))"
  using grows_run [OF assms] by (simp add: grows_def init_def empty_registry_def keys_def)

lemma woke_snapshot:
  assumes "poll s = Sleeping" and "k \<in> set (keys (reg s))"
  shows "\<exists>symbol rest. step s Woke = Some (s\<lparr>poll := Fetching symbol rest\<rparr>, [])
           \<and> symbol # rest = keys (reg s)"
  using assms by (cases "keys (reg s)") (auto simp: next_symbol_def)

text \<open>
  C9. The keys of \<^verbatim>\<open>subscriptions\<close> never shrink: subscribe, the cleanup after a disconnect
  and the cleanup after a failed send each keep the old key list as an initial segment of
  the new one, and so does every run of the tasks, so a key stays a key; subscribing to a
  symbol makes it a key; and when the poll loop next wakes up, the list it iterates
  contains every symbol that was a key before, whether or not its set still has a member.
\<close>

theorem keys_never_shrink:
  assumes "run s ls = Some (s', evs)" and "k \<in> set (keys (reg s))"
  shows "prefix (keys (reg s)) (keys (reg s'))
       \<and> k \<in> set (keys (reg s'))
       \<and> (poll s' = Sleeping \<longrightarrow>
            (\<exists>symbol rest. step s' Woke = Some (s'\<lparr>poll := Fetching symbol rest\<rparr>, [])
               \<and> k \<in> set (symbol # rest)))
       \<and> k' \<in> set (keys (subscribe r c k'))
       \<and> prefix (keys r) (keys (subscribe r c k'))
       \<and> prefix (keys r) (keys (disconnect_cleanup r c))
       \<and> prefix (keys r) (keys (remove_dead r k' c))"
proof -
  from grows_run [OF assms(1)] have p: "prefix (keys (reg s)) (keys (reg s'))"
    by (simp add: grows_def)
  with assms(2) have k: "k \<in> set (keys (reg s'))"
    using set_mono_prefix by blast
  have w: "poll s' = Sleeping \<longrightarrow>
            (\<exists>symbol rest. step s' Woke = Some (s'\<lparr>poll := Fetching symbol rest\<rparr>, [])
               \<and> k \<in> set (symbol # rest))"
  proof
    assume "poll s' = Sleeping"
    from woke_snapshot [OF this k] k show
      "\<exists>symbol rest. step s' Woke = Some (s'\<lparr>poll := Fetching symbol rest\<rparr>, []) \<and> k \<in> set (symbol # rest)"
      by metis
  qed
  have a: "k' \<in> set (keys (subscribe r c k'))"
    by (simp add: subscribe_def add_new_def add_def keys_def update_key)
  have ops: "prefix (keys r) (keys (subscribe r c k'))"
    "prefix (keys r) (keys (disconnect_cleanup r c))"
    "prefix (keys r) (keys (remove_dead r k' c))"
    using grows_subscribe [of r c k'] grows_disconnect_cleanup [of r c] grows_remove_dead [of r k' c]
    by (simp_all add: grows_def)
  from p k w a ops show ?thesis by blast
qed

text \<open>
  C9 at a concrete input: connection 1, the only subscriber of \<^verbatim>\<open>AAPL\<close>, disconnects; the
  set of \<^verbatim>\<open>AAPL\<close> is empty afterwards, \<^verbatim>\<open>AAPL\<close> is still a key, and the next tick starts by
  fetching it.
\<close>

theorem keys_never_shrink_witness:
  "run one_subscriber [ReceiveRaised 1 WebSocketDisconnect] = Some (no_subscriber, [])
   \<and> SStr ''AAPL'' \<in> set (keys (reg one_subscriber))
   \<and> getitem (subscriptions (reg no_subscriber)) (SStr ''AAPL'') = {||}
   \<and> prefix (keys (reg one_subscriber)) (keys (reg no_subscriber))
   \<and> SStr ''AAPL'' \<in> set (keys (reg no_subscriber))
   \<and> poll no_subscriber = Sleeping
   \<and> (\<exists>symbol rest. step no_subscriber Woke = Some (no_subscriber\<lparr>poll := Fetching symbol rest\<rparr>, [])
         \<and> SStr ''AAPL'' \<in> set (symbol # rest))"
proof -
  have r: "run one_subscriber [ReceiveRaised 1 WebSocketDisconnect] = Some (no_subscriber, [])"
    by (simp add: one_subscriber_def no_subscriber_def left_behind_def handler_raised_def)
  have k: "SStr ''AAPL'' \<in> set (keys (reg one_subscriber))"
    by (simp add: one_subscriber_def registry_eval)
  have e: "getitem (subscriptions (reg no_subscriber)) (SStr ''AAPL'') = {||}"
    by (simp add: no_subscriber_def left_behind_def registry_eval)
  have p: "poll no_subscriber = Sleeping"
    by (simp add: no_subscriber_def)
  from keys_never_shrink [OF r k, of "SStr ''AAPL''" empty_registry 1] r k e p
  show ?thesis by blast
qed

section \<open>Agreement of the two maps\<close>

lemma agree_iff:
  "agree r \<longleftrightarrow> (\<forall>c k. c |\<in>| getitem (subscriptions r) k \<longleftrightarrow> ws_to_symbol r c = Some (Some k))"
proof
  assume a: "agree r"
  show "\<forall>c k. c |\<in>| getitem (subscriptions r) k \<longleftrightarrow> ws_to_symbol r c = Some (Some k)"
  proof (intro allI iffI)
    fix c k
    assume mem: "c |\<in>| getitem (subscriptions r) k"
    show "ws_to_symbol r c = Some (Some k)"
    proof (cases "dict_get (ws_to_symbol r) c")
      case None
      with a mem show ?thesis unfolding agree_def by blast
    next
      case (Some k0)
      then have "ws_to_symbol r c = Some (Some k0)"
        by (simp add: dict_get_def split: option.splits)
      with a mem show ?thesis unfolding agree_def by metis
    qed
  next
    fix c k
    assume "ws_to_symbol r c = Some (Some k)"
    with a show "c |\<in>| getitem (subscriptions r) k" unfolding agree_def by blast
  qed
next
  assume h: "\<forall>c k. c |\<in>| getitem (subscriptions r) k \<longleftrightarrow> ws_to_symbol r c = Some (Some k)"
  show "agree r"
    unfolding agree_def dict_get_def
    by (auto simp: h split: option.splits)
qed

lemma agree_empty: "agree empty_registry"
  by (simp add: agree_iff empty_registry_def getitem_Nil)

lemma agree_accept:
  assumes "agree r" and "\<forall>k. ws |\<notin>| getitem (subscriptions r) k"
  shows "agree (accept r ws)"
  using assms by (auto simp: agree_iff accept_def)

lemma agree_subscribe:
  assumes "agree r" and "truthy_values r"
  shows "agree (subscribe r ws k)"
proof (cases "dict_get (ws_to_symbol r) ws")
  case None
  then have "\<forall>k'. ws |\<notin>| getitem (subscriptions r) k'"
    using assms(1) by (auto simp: agree_iff dict_get_def)
  with assms(1) None show ?thesis
    by (auto simp: agree_iff subscribe_def add_new_def discard_prev_def getitem_add)
next
  case (Some prev)
  then have p: "ws_to_symbol r ws = Some (Some prev)"
    by (simp add: dict_get_def split: option.splits)
  with assms(2) have "truthy prev" by (simp add: truthy_values_def)
  with assms(1) Some p show ?thesis
    by (auto simp: agree_iff subscribe_def add_new_def discard_prev_def getitem_add getitem_discard)
qed

lemma agree_disconnect_cleanup:
  assumes "agree r" and "truthy_values r"
  shows "agree (disconnect_cleanup r ws)"
proof (cases "dict_get (ws_to_symbol r) ws")
  case None
  then have "\<forall>k'. ws |\<notin>| getitem (subscriptions r) k'"
    using assms(1) by (auto simp: agree_iff dict_get_def)
  with assms(1) None show ?thesis
    by (auto simp: agree_iff disconnect_cleanup_def)
next
  case (Some prev)
  then have p: "ws_to_symbol r ws = Some (Some prev)"
    by (simp add: dict_get_def split: option.splits)
  with assms(2) have "truthy prev" by (simp add: truthy_values_def)
  with assms(1) Some p show ?thesis
    by (auto simp: agree_iff disconnect_cleanup_def getitem_discard)
qed

lemma agree_remove_dead:
  assumes "agree r"
    and "ws |\<in>| getitem (subscriptions r) k \<or> (\<forall>k'. ws |\<notin>| getitem (subscriptions r) k')"
  shows "agree (remove_dead r k ws)"
  using assms by (auto simp: agree_iff remove_dead_def getitem_discard)

text \<open>
  From a registry whose maps agree, the cleanup after a disconnect leaves the connection
  nowhere; the cleanup after a failed send does so when the connection still is in the
  set of the symbol being broadcast, or is in no set.
\<close>

lemma disconnect_cleanup_gone:
  assumes "agree r" and "truthy_values r"
  shows "ws_to_symbol (disconnect_cleanup r ws) ws = None
       \<and> (\<forall>k. ws |\<notin>| getitem (subscriptions (disconnect_cleanup r ws)) k)"
  using agree_disconnect_cleanup [OF assms]
  by (simp add: agree_iff) (simp add: disconnect_cleanup_def Let_def split: option.splits)

lemma remove_dead_gone:
  assumes "agree r"
    and "ws |\<in>| getitem (subscriptions r) k \<or> (\<forall>k'. ws |\<notin>| getitem (subscriptions r) k')"
  shows "ws_to_symbol (remove_dead r k ws) ws = None
       \<and> (\<forall>k'. ws |\<notin>| getitem (subscriptions (remove_dead r k ws)) k')"
  using agree_remove_dead [OF assms]
  by (simp add: agree_iff) (simp add: remove_dead_def)

text \<open>
  C1. The property that in every reachable registry the two maps agree fails at the run
  \<open>stale_cleanup\<close>, which consists of accepts, subscribes and one cleanup after a failed
  send, from the empty registry. Connection 2 is listed at line 225 under \<^verbatim>\<open>AAPL\<close>, moves
  to \<^verbatim>\<open>MSFT\<close> while the loop waits for the send to connection 1, and the send to connection
  2 raises. Lines 231-232 discard it from the set of \<^verbatim>\<open>AAPL\<close>, where it no longer is, and
  pop its entry: in the state reached, connection 2 has no entry in \<^verbatim>\<open>ws_to_symbol\<close> and is
  a member of the set of \<^verbatim>\<open>MSFT\<close>.
\<close>

theorem stale_cleanup_leaves_connection:
  "(case run init stale_cleanup of
      None \<Rightarrow> False
    | Some (s, evs) \<Rightarrow>
        subscriptions (reg s) = [(SStr ''AAPL'', {|1|}), (SStr ''MSFT'', {|2|})]
      \<and> ws_to_symbol (reg s) 2 = None
      \<and> 2 |\<in>| getitem (subscriptions (reg s)) (SStr ''MSFT''))"
  by (simp add: stale_cleanup_def moved_during_broadcast_def task_eval registry_eval)

lemma stale_cleanup_not_agree:
  "\<exists>s evs. run init stale_cleanup = Some (s, evs) \<and> \<not> agree (reg s)"
proof -
  obtain s evs where r: "run init stale_cleanup = Some (s, evs)"
    and n: "ws_to_symbol (reg s) 2 = None"
    and m: "2 |\<in>| getitem (subscriptions (reg s)) (SStr ''MSFT'')"
    by (cases "run init stale_cleanup")
       (simp_all add: stale_cleanup_def moved_during_broadcast_def task_eval registry_eval)
  have "\<not> agree (reg s)"
  proof
    assume "agree (reg s)"
    with m have "ws_to_symbol (reg s) 2 = Some (Some (SStr ''MSFT''))"
      by (simp add: agree_iff)
    with n show False by simp
  qed
  with r show ?thesis by blast
qed

text \<open>
  With its entry gone, the next subscribe command of connection 2 finds no previous symbol
  to discard from: the connection ends up in the sets of two symbols.
\<close>

lemma stale_cleanup_then_two_sets:
  "(case run init stale_cleanup_then_subscribe of
      None \<Rightarrow> False
    | Some (s, evs) \<Rightarrow>
        2 |\<in>| getitem (subscriptions (reg s)) (SStr ''MSFT'')
      \<and> 2 |\<in>| getitem (subscriptions (reg s)) (SStr ''TSLA'')
      \<and> ws_to_symbol (reg s) 2 = Some (Some (SStr ''TSLA'')))"
  by (simp add: stale_cleanup_then_subscribe_def stale_cleanup_def moved_during_broadcast_def
        task_eval registry_eval)

text \<open>
  C3. The property that a cleanup leaves the connection nowhere in the registry fails for
  the cleanup after a failed send, in the state in which the send to connection 2 is about
  to raise: the loop is broadcasting \<^verbatim>\<open>AAPL\<close>, and \<^verbatim>\<open>ws_to_symbol\<close> records \<^verbatim>\<open>MSFT\<close> for
  connection 2. Lines 231-232 remove the entry of connection 2 and leave it in the set of
  \<^verbatim>\<open>MSFT\<close>, and so does the cleanup of lines 274-276 when the handler of connection 2 sees
  the disconnect afterwards.
\<close>

theorem failed_send_cleanup_misses_current_set:
  "(case run init moved_during_broadcast of
      None \<Rightarrow> False
    | Some (s, evs) \<Rightarrow>
        poll s = Pushing (SStr ''AAPL'') (Price (SStr ''AAPL'') (Some 150.25) 1700000000) 2 [] []
      \<and> ws_to_symbol (reg s) 2 = Some (Some (SStr ''MSFT''))
      \<and> ws_to_symbol (remove_dead (reg s) (SStr ''AAPL'') 2) 2 = None
      \<and> 2 |\<in>| getitem (subscriptions (remove_dead (reg s) (SStr ''AAPL'') 2)) (SStr ''MSFT'')
      \<and> 2 |\<in>| getitem (subscriptions
                 (disconnect_cleanup (remove_dead (reg s) (SStr ''AAPL'') 2) 2)) (SStr ''MSFT''))"
  by (simp add: moved_during_broadcast_def task_eval registry_eval)

section \<open>What leaves \<^verbatim>\<open>get_latest_price_sync\<close>\<close>

lemma price_source_cases:
  "get_latest_price_sync y symbol =
     (case Ticker y symbol of Some e \<Rightarrow> Inl e | None \<Rightarrow>
        Inr (case history y symbol of
               Inl e \<Rightarrow> info_fallback y symbol
             | Inr intraday \<Rightarrow>
                 if df_empty intraday then info_fallback y symbol
                 else (case last_close intraday of
                         Inl e \<Rightarrow> info_fallback y symbol
                       | Inr p \<Rightarrow> Some p)))"
  by (simp add: get_latest_price_sync_def split: option.splits sum.splits)

lemma lookups_fail_None:
  assumes "Ticker y symbol = None" and "history y symbol = Inl e" and "info y symbol = Inl e'"
  shows "get_latest_price y symbol = Inr None"
  using assms by (simp add: get_latest_price_def get_latest_price_sync_def info_fallback_def)

text \<open>
  C10, as the claim states it, fails where the constructor of line 196 raises: the call
  stands before the first \<^verbatim>\<open>try\<close>, and its exception leaves \<^verbatim>\<open>get_latest_price_sync\<close>.
\<close>

theorem price_helper_propagates_constructor_error:
  "get_latest_price_sync demo_yf (SStr ''BAD'') = Inl (LibError ''ticker'')"
  by (simp add: get_latest_price_sync_def demo_yf_def)

text \<open>
  C10, amended. For every symbol and every behaviour of \<^verbatim>\<open>history\<close>, of the frame and of
  \<^verbatim>\<open>info\<close>: when \<^verbatim>\<open>yf.Ticker(symbol)\<close> returns, \<^verbatim>\<open>get_latest_price_sync\<close> returns a float or
  \<^verbatim>\<open>None\<close> and no exception leaves it, and so does \<^verbatim>\<open>get_latest_price\<close>; when the constructor
  raises, that exception is what leaves the function.
\<close>

theorem price_helper_total:
  "(Ticker y symbol = None \<longrightarrow>
      (\<exists>price. get_latest_price_sync y symbol = Inr price \<and> get_latest_price y symbol = Inr price))
   \<and> (\<forall>e. Ticker y symbol = Some e \<longrightarrow> get_latest_price_sync y symbol = Inl e)"
  by (simp add: get_latest_price_def price_source_cases)

text \<open>
  C10 at concrete inputs: a price from the one-minute data, \<^verbatim>\<open>None\<close> when \<^verbatim>\<open>history\<close> and
  \<^verbatim>\<open>info\<close> both raise.
\<close>

theorem price_helper_total_witness:
  "Ticker demo_yf (SStr ''AAPL'') = None
   \<and> Ticker demo_yf (SStr ''MSFT'') = None
   \<and> (\<exists>price. get_latest_price_sync demo_yf (SStr ''AAPL'') = Inr price)
   \<and> (\<exists>price. get_latest_price_sync demo_yf (SStr ''MSFT'') = Inr price)
   \<and> get_latest_price_sync demo_yf (SStr ''AAPL'') = Inr (Some 150.25)
   \<and> get_latest_price_sync demo_yf (SStr ''MSFT'') = Inr None"
proof -
  have a: "Ticker demo_yf (SStr ''AAPL'') = None" by (simp add: demo_yf_def)
  have m: "Ticker demo_yf (SStr ''MSFT'') = None" by (simp add: demo_yf_def)
  have va: "get_latest_price_sync demo_yf (SStr ''AAPL'') = Inr (Some 150.25)"
    by (simp add: get_latest_price_sync_def demo_yf_def)
  have vm: "get_latest_price_sync demo_yf (SStr ''MSFT'') = Inr None"
    by (simp add: get_latest_price_sync_def info_fallback_def demo_yf_def)
  from price_helper_total [of demo_yf "SStr ''AAPL''"] price_helper_total [of demo_yf "SStr ''MSFT''"]
    a m va vm
  show ?thesis by blast
qed

section \<open>One tick\<close>

lemma send_all_events: "snd (send_all w k p conns r) = map (\<lambda>c. Send c p) conns"
  by (induction conns arbitrary: r) (simp_all add: case_prod_beta)

lemma send_all_other:
  "k' \<noteq> k \<Longrightarrow>
     getitem (subscriptions (fst (send_all w k p conns r))) k' = getitem (subscriptions r) k'"
  by (induction conns arbitrary: r) (simp_all add: case_prod_beta remove_dead_def getitem_discard)

lemma fetched_append: "fetched (xs @ ys) = fetched xs @ fetched ys"
  by (induction xs rule: fetched.induct) simp_all

lemma fetched_sends: "fetched (map (\<lambda>c. Send c p) conns) = []"
  by (induction conns) simp_all

lemma about_sends:
  "filter (about k) (map (\<lambda>c. Send c (Price k' p t)) conns)
     = (if k' = k then map (\<lambda>c. Send c (Price k' p t)) conns else [])"
  by (induction conns) simp_all

lemma set_listed: "set (listed order S) = fset S"
  by (auto simp: listed_def)

lemma distinct_listed: "distinct (listed order S)"
  by (auto simp: listed_def sorted_list_of_fset.rep_eq)

text \<open>Whatever order Python lists the set in, some list given from outside yields it.\<close>

lemma listed_any_order:
  assumes "set xs = fset S" and "distinct xs"
  shows "listed xs S = xs"
proof -
  have "filter (\<lambda>c. c |\<in>| S) (remdups xs) = xs"
    using assms by (simp add: distinct_remdups_id)
  moreover have "filter (\<lambda>c. c \<notin> set xs) (sorted_list_of_fset S) = []"
    using assms by (simp add: filter_empty_conv)
  ultimately show ?thesis by (simp add: listed_def)
qed

lemma set_conns_of: "set (conns_of order r k) = fset (getitem (subscriptions r) k)"
  by (simp add: conns_of_def set_listed)

lemma distinct_conns_of: "distinct (conns_of order r k)"
  by (simp add: conns_of_def distinct_listed)

text \<open>
  The calls of the price source made by the loop over the symbols: one per symbol, in
  order, up to and including the first call that raises.
\<close>

lemma poll_fetched:
  "fetched (fst (snd (poll_symbols w ks r)))
     = takeWhile (returns w) ks @ take 1 (dropWhile (returns w) ks)"
  by (induction ks arbitrary: r)
     (simp_all add: returns_def case_prod_beta fetched_append fetched_sends send_all_events
        split: sum.splits)

lemma poll_no_error:
  "\<forall>k \<in> set ks. returns w k \<Longrightarrow> snd (snd (poll_symbols w ks r)) = None"
  by (induction ks arbitrary: r)
     (simp_all add: returns_def case_prod_beta split: sum.splits)

lemma poll_no_log: "Log e \<notin> set (fst (snd (poll_symbols w ks r)))"
  by (induction ks arbitrary: r)
     (auto simp: case_prod_beta send_all_events split: sum.splits)

lemma poll_not_about:
  "k \<notin> set ks \<Longrightarrow> filter (about k) (fst (snd (poll_symbols w ks r))) = []"
  by (induction ks arbitrary: r)
     (auto simp: case_prod_beta send_all_events about_sends split: sum.splits)

text \<open>
  The price messages for a symbol that the loop gets to: the payload built at line 224,
  once for each connection listed at line 225. The sets of the other symbols are not
  touched on the way, so the list is the one of the registry the tick started from.
\<close>

lemma poll_about:
  assumes "distinct ks" and "k \<in> set ks"
    and "\<forall>k' \<in> set (takeWhile (\<lambda>x. x \<noteq> k) ks). returns w k'"
    and "get_latest_price (yf w) k = Inr price"
  shows "filter (about k) (fst (snd (poll_symbols w ks r)))
           = map (\<lambda>c. Send c (Price k price (now w k))) (conns_of (listing w k) r k)"
  using assms
proof (induction ks arbitrary: r)
  case Nil
  then show ?case by simp
next
  case (Cons h ks)
  show ?case
  proof (cases "h = k")
    case True
    with Cons.prems have "k \<notin> set ks" by simp
    with True Cons.prems(4) show ?thesis
      by (simp add: case_prod_beta send_all_events about_sends poll_not_about)
  next
    case False
    with Cons.prems obtain q where q: "get_latest_price (yf w) h = Inr q"
      by (auto simp: returns_def split: sum.splits)
    let ?r1 = "fst (send_all w h (Price h q (now w h)) (conns_of (listing w h) r h)
                  (r\<lparr>subscriptions := touch (subscriptions r) h\<rparr>))"
    have same: "conns_of (listing w k) ?r1 k = conns_of (listing w k) r k"
      using False by (simp add: conns_of_def send_all_other getitem_touch)
    have "filter (about k) (fst (snd (poll_symbols w ks ?r1)))
            = map (\<lambda>c. Send c (Price k price (now w k))) (conns_of (listing w k) ?r1 k)"
      using Cons.prems False by (intro Cons.IH) auto
    with q False same show ?thesis
      by (simp add: case_prod_beta send_all_events about_sends)
  qed
qed

lemma tick_events:
  "snd (tick w r) = fst (snd (poll_symbols w (keys r) r))
      @ (case snd (snd (poll_symbols w (keys r) r)) of None \<Rightarrow> [] | Some e \<Rightarrow> [Log e])"
  by (cases "keys r = []") (simp_all add: tick_def Let_def case_prod_beta split: option.splits)

lemma tick_fetched:
  "fetched (snd (tick w r))
     = takeWhile (returns w) (keys r) @ take 1 (dropWhile (returns w) (keys r))"
  by (simp add: tick_events fetched_append poll_fetched split: option.splits)

lemma fetched_prefix: "prefix (takeWhile P ks @ take 1 (dropWhile P ks)) ks"
  by (induction ks) simp_all

lemma all_return:
  "\<forall>k \<in> set ks. P k \<Longrightarrow> takeWhile P ks @ take 1 (dropWhile P ks) = ks"
  by (induction ks) simp_all

lemma reached_all:
  assumes "\<forall>k' \<in> set (keys r). returns w k'" and "k \<in> set (keys r)"
  shows "reached w r k"
  using assms unfolding reached_def by (meson set_takeWhileD)

lemmas tick_eval = tick_def Let_def demo_world_def demo_yf_def get_latest_price_def
  get_latest_price_sync_def info_fallback_def conns_of_def listed_def
  sorted_list_of_fset.rep_eq
  two_symbols_def one_symbol_def left_behind_def

text \<open>
  C2, as the claim states it, fails after the only subscriber of a symbol has gone:
  connection 1 subscribes to \<^verbatim>\<open>AAPL\<close> and disconnects. No connection has an entry and the
  only set is empty, yet \<^verbatim>\<open>AAPL\<close> is in the list of line 219 and the tick calls the price
  source for it.
\<close>

theorem tick_fetches_abandoned_symbol:
  "map_option (subscriptions \<circ> reg \<circ> fst) (run init come_and_gone)
     = Some (subscriptions left_behind)
   \<and> subscriptions left_behind = [(SStr ''AAPL'', {||})]
   \<and> ws_to_symbol left_behind 1 = None
   \<and> keys left_behind = [SStr ''AAPL'']
   \<and> snd (tick demo_world left_behind) = [Fetch (SStr ''AAPL'')]"
  by (simp add: come_and_gone_def task_eval tick_eval registry_eval)

text \<open>
  C2, amended. On every tick the list of line 219 is the key list of \<^verbatim>\<open>subscriptions\<close>:
  it holds every symbol with at least one subscribed connection, and also the symbols
  whose set has become empty. The price source is called once per symbol of that list, in
  order, as long as no call raises (the first call that raises is the last of the tick);
  when no call raises it is called for the whole list. When \<^verbatim>\<open>subscriptions\<close> has no key,
  the tick calls nothing.
\<close>

theorem tick_fetches_every_key:
  assumes "distinct (keys r)"
  shows "fetched (snd (tick w r))
           = takeWhile (returns w) (keys r) @ take 1 (dropWhile (returns w) (keys r))
       \<and> prefix (fetched (snd (tick w r))) (keys r)
       \<and> distinct (fetched (snd (tick w r)))
       \<and> ((\<forall>k \<in> set (keys r). returns w k) \<longrightarrow> fetched (snd (tick w r)) = keys r)
       \<and> (\<forall>k. getitem (subscriptions r) k \<noteq> {||} \<longrightarrow> k \<in> set (keys r))
       \<and> (keys r = [] \<longrightarrow> snd (tick w r) = [])"
proof -
  have p: "prefix (fetched (snd (tick w r))) (keys r)"
    unfolding tick_fetched by (rule fetched_prefix)
  then obtain zs where "keys r = fetched (snd (tick w r)) @ zs"
    by (auto simp: prefix_def)
  with assms have d: "distinct (fetched (snd (tick w r)))"
    by (metis distinct_append)
  have a: "(\<forall>k \<in> set (keys r). returns w k) \<longrightarrow> fetched (snd (tick w r)) = keys r"
    unfolding tick_fetched by (rule impI) (rule all_return)
  have g: "\<forall>k. getitem (subscriptions r) k \<noteq> {||} \<longrightarrow> k \<in> set (keys r)"
    using getitem_not_key [of "subscriptions r"] by (simp add: keys_def)
  have e: "keys r = [] \<longrightarrow> snd (tick w r) = []"
    by (simp add: tick_def)
  from p d a g e tick_fetched [of w r] show ?thesis by blast
qed

text \<open>
  C2 at concrete inputs: two symbols with one subscriber each are fetched once each, in
  key order; the empty registry causes no call.
\<close>

theorem tick_fetches_every_key_witness:
  "distinct (keys two_symbols)
   \<and> keys two_symbols = [SStr ''AAPL'', SStr ''MSFT'']
   \<and> returns demo_world (SStr ''AAPL'') \<and> returns demo_world (SStr ''MSFT'')
   \<and> fetched (snd (tick demo_world two_symbols)) = [SStr ''AAPL'', SStr ''MSFT'']
   \<and> distinct (fetched (snd (tick demo_world two_symbols)))
   \<and> keys empty_registry = []
   \<and> snd (tick demo_world empty_registry) = []"
proof -
  have d: "distinct (keys two_symbols)" by (simp add: two_symbols_def registry_eval)
  have k: "keys two_symbols = [SStr ''AAPL'', SStr ''MSFT'']"
    by (simp add: two_symbols_def registry_eval)
  have ra: "returns demo_world (SStr ''AAPL'')" by (simp add: returns_def tick_eval)
  have rm: "returns demo_world (SStr ''MSFT'')" by (simp add: returns_def tick_eval)
  have d0: "distinct (keys empty_registry)" by (simp add: registry_eval)
  have k0: "keys empty_registry = []" by (simp add: registry_eval)
  from tick_fetches_every_key [OF d, of demo_world] k ra rm
  have f: "fetched (snd (tick demo_world two_symbols)) = [SStr ''AAPL'', SStr ''MSFT'']"
    and df: "distinct (fetched (snd (tick demo_world two_symbols)))"
    by simp_all
  from tick_fetches_every_key [OF d0, of demo_world] k0
  have e: "snd (tick demo_world empty_registry) = []" by simp
  from d k ra rm f df k0 e show ?thesis by blast
qed

lemma poll_error:
  "snd (snd (poll_symbols w ks r)) \<noteq> None \<longleftrightarrow> (\<exists>k \<in> set ks. \<not> returns w k)"
  by (induction ks arbitrary: r)
     (simp_all add: returns_def case_prod_beta split: sum.splits)

text \<open>The handler of line 233 prints exactly when a call of the price source raises.\<close>

lemma tick_logs:
  "(\<exists>e. Log e \<in> set (snd (tick w r))) \<longleftrightarrow> (\<exists>k \<in> set (keys r). \<not> returns w k)"
proof (cases "snd (snd (poll_symbols w (keys r) r))")
  case None
  then have "\<not> (\<exists>k \<in> set (keys r). \<not> returns w k)"
    using poll_error [of w "keys r" r] by simp
  with None show ?thesis by (simp add: tick_events poll_no_log)
next
  case (Some e)
  then have "\<exists>k \<in> set (keys r). \<not> returns w k"
    using poll_error [of w "keys r" r] by simp
  with Some show ?thesis by (auto simp: tick_events)
qed

lemma tick_about:
  assumes "distinct (keys r)" and "reached w r k" and "get_latest_price (yf w) k = Inr price"
  shows "filter (about k) (snd (tick w r))
           = map (\<lambda>c. Send c (Price k price (now w k))) (conns_of (listing w k) r k)"
  using assms poll_about [of "keys r" k w price r]
  by (simp add: tick_events reached_def split: option.splits)

lemma tick_sends:
  assumes "distinct (keys r)" and "reached w r k" and "get_latest_price (yf w) k = Inr price"
    and "c |\<in>| getitem (subscriptions r) k"
  shows "Send c (Price k price (now w k)) \<in> set (snd (tick w r))"
proof -
  from assms(4)
  have "Send c (Price k price (now w k)) \<in> set (filter (about k) (snd (tick w r)))"
    unfolding tick_about [OF assms(1-3)] by (simp add: set_conns_of)
  then show ?thesis by simp
qed

text \<open>
  C4, as the claim states it, fails when the price source fails in the constructor of line
  196: that exception is not turned into \<^verbatim>\<open>None\<close>. With \<^verbatim>\<open>BAD\<close> before \<^verbatim>\<open>AAPL\<close> in the key
  list, the tick calls the price source for \<^verbatim>\<open>BAD\<close>, the handler of line 233 prints the
  exception, and nothing is sent: neither a \<^verbatim>\<open>null\<close> price to the subscriber of \<^verbatim>\<open>BAD\<close> nor
  the available price to the subscriber of \<^verbatim>\<open>AAPL\<close>.
\<close>

theorem constructor_error_ends_tick:
  "keys bad_first = [SStr ''BAD'', SStr ''AAPL'']
   \<and> 1 |\<in>| getitem (subscriptions bad_first) (SStr ''BAD'')
   \<and> 2 |\<in>| getitem (subscriptions bad_first) (SStr ''AAPL'')
   \<and> get_latest_price (yf demo_world) (SStr ''BAD'') = Inl (LibError ''ticker'')
   \<and> get_latest_price (yf demo_world) (SStr ''AAPL'') = Inr (Some 150.25)
   \<and> snd (tick demo_world bad_first) = [Fetch (SStr ''BAD''), Log (LibError ''ticker'')]"
  by (simp add: bad_first_def tick_eval registry_eval)

text \<open>
  The failing symbol need not be one of the two subscribed symbols, nor have a subscriber
  at all: the key of a symbol that every connection has left is still in the list of line
  219. With the abandoned key \<^verbatim>\<open>BAD\<close> first, connection 1 on \<^verbatim>\<open>AAPL\<close> and connection 2 on
  \<^verbatim>\<open>MSFT\<close>, where the helper returns a price for \<^verbatim>\<open>AAPL\<close> and \<^verbatim>\<open>None\<close> for \<^verbatim>\<open>MSFT\<close>, the tick
  ends at \<^verbatim>\<open>BAD\<close> and neither subscriber is sent anything.
\<close>

lemma abandoned_key_ends_tick:
  "keys bad_abandoned = [SStr ''BAD'', SStr ''AAPL'', SStr ''MSFT'']
   \<and> getitem (subscriptions bad_abandoned) (SStr ''BAD'') = {||}
   \<and> getitem (subscriptions bad_abandoned) (SStr ''AAPL'') = {|1|}
   \<and> getitem (subscriptions bad_abandoned) (SStr ''MSFT'') = {|2|}
   \<and> get_latest_price (yf demo_world) (SStr ''AAPL'') = Inr (Some 150.25)
   \<and> get_latest_price (yf demo_world) (SStr ''MSFT'') = Inr None
   \<and> snd (tick demo_world bad_abandoned) = [Fetch (SStr ''BAD''), Log (LibError ''ticker'')]"
  by (simp add: bad_abandoned_def tick_eval registry_eval)

text \<open>
  C4, amended. Within a single tick, let \<open>A\<close> and \<open>B\<close> be two symbols that the tick gets to:
  they are keys of \<^verbatim>\<open>subscriptions\<close>, and the price helper has raised for no key before them
  in the list of line 219, where the keys of symbols without a subscriber count as well.
  If the price source fails for \<open>A\<close> in a way that lines 198-209 catch (the helper returns
  \<^verbatim>\<open>None\<close>) and succeeds for \<open>B\<close> with price \<open>p\<close>, then every subscriber of \<open>A\<close> is sent the price
  message of \<open>A\<close> with \<^verbatim>\<open>null\<close> and every subscriber of \<open>B\<close> is sent the price message of \<open>B\<close>
  with \<open>p\<close>, in the same tick, whichever symbol comes first. The handler of line 233 ends the
  tick exactly when the helper raises for some key; when it raises for none, the tick
  calls the price source for every key.
\<close>

theorem tick_isolation:
  assumes "distinct (keys r)" and "reached w r A" and "reached w r B"
    and "get_latest_price (yf w) A = Inr None"
    and "get_latest_price (yf w) B = Inr (Some p)"
  shows "(\<forall>c. c |\<in>| getitem (subscriptions r) A \<longrightarrow>
            Send c (Price A None (now w A)) \<in> set (snd (tick w r)))
       \<and> (\<forall>c. c |\<in>| getitem (subscriptions r) B \<longrightarrow>
            Send c (Price B (Some p) (now w B)) \<in> set (snd (tick w r)))
       \<and> ((\<exists>e. Log e \<in> set (snd (tick w r))) \<longleftrightarrow> (\<exists>k \<in> set (keys r). \<not> returns w k))
       \<and> ((\<forall>k \<in> set (keys r). returns w k) \<longrightarrow> fetched (snd (tick w r)) = keys r)"
proof -
  have sA: "\<forall>c. c |\<in>| getitem (subscriptions r) A \<longrightarrow>
              Send c (Price A None (now w A)) \<in> set (snd (tick w r))"
    using tick_sends [OF assms(1,2,4)] by blast
  have sB: "\<forall>c. c |\<in>| getitem (subscriptions r) B \<longrightarrow>
              Send c (Price B (Some p) (now w B)) \<in> set (snd (tick w r))"
    using tick_sends [OF assms(1,3,5)] by blast
  have fe: "(\<forall>k \<in> set (keys r). returns w k) \<longrightarrow> fetched (snd (tick w r)) = keys r"
    unfolding tick_fetched by (rule impI) (rule all_return)
  from sA sB fe tick_logs [of w r] show ?thesis by blast
qed

text \<open>
  C4 at a concrete input: connection 1 on \<^verbatim>\<open>AAPL\<close>, connection 2 on \<^verbatim>\<open>MSFT\<close>; the price
  source has a price for \<^verbatim>\<open>AAPL\<close> and raises in \<^verbatim>\<open>history\<close> and in \<^verbatim>\<open>info\<close> for \<^verbatim>\<open>MSFT\<close>.
\<close>

theorem tick_isolation_witness:
  "distinct (keys two_symbols)
   \<and> keys two_symbols = [SStr ''AAPL'', SStr ''MSFT'']
   \<and> reached demo_world two_symbols (SStr ''MSFT'')
   \<and> reached demo_world two_symbols (SStr ''AAPL'')
   \<and> get_latest_price (yf demo_world) (SStr ''MSFT'') = Inr None
   \<and> get_latest_price (yf demo_world) (SStr ''AAPL'') = Inr (Some 150.25)
   \<and> 2 |\<in>| getitem (subscriptions two_symbols) (SStr ''MSFT'')
   \<and> 1 |\<in>| getitem (subscriptions two_symbols) (SStr ''AAPL'')
   \<and> Send 2 (Price (SStr ''MSFT'') None 1700000000) \<in> set (snd (tick demo_world two_symbols))
   \<and> Send 1 (Price (SStr ''AAPL'') (Some 150.25) 1700000000) \<in> set (snd (tick demo_world two_symbols))
   \<and> \<not> (\<exists>e. Log e \<in> set (snd (tick demo_world two_symbols)))
   \<and> fetched (snd (tick demo_world two_symbols)) = [SStr ''AAPL'', SStr ''MSFT'']"
proof -
  have d: "distinct (keys two_symbols)" by (simp add: two_symbols_def registry_eval)
  have k: "keys two_symbols = [SStr ''AAPL'', SStr ''MSFT'']"
    by (simp add: two_symbols_def registry_eval)
  have fm: "get_latest_price (yf demo_world) (SStr ''MSFT'') = Inr None"
    by (simp add: tick_eval)
  have fa: "get_latest_price (yf demo_world) (SStr ''AAPL'') = Inr (Some 150.25)"
    by (simp add: tick_eval)
  have ra: "returns demo_world (SStr ''AAPL'')" by (simp add: returns_def fa)
  have rm: "returns demo_world (SStr ''MSFT'')" by (simp add: returns_def fm)
  have em: "reached demo_world two_symbols (SStr ''MSFT'')"
    by (simp add: reached_def k ra)
  have ea: "reached demo_world two_symbols (SStr ''AAPL'')"
    by (simp add: reached_def k)
  have m2: "2 |\<in>| getitem (subscriptions two_symbols) (SStr ''MSFT'')"
    by (simp add: two_symbols_def registry_eval)
  have m1: "1 |\<in>| getitem (subscriptions two_symbols) (SStr ''AAPL'')"
    by (simp add: two_symbols_def registry_eval)
  have n: "now demo_world (SStr ''MSFT'') = 1700000000" "now demo_world (SStr ''AAPL'') = 1700000000"
    by (simp_all add: demo_world_def)
  have all: "\<forall>k \<in> set (keys two_symbols). returns demo_world k"
    by (simp add: k ra rm)
  from tick_isolation [OF d em ea fm fa] m2 m1 n all k
  have "Send 2 (Price (SStr ''MSFT'') None 1700000000) \<in> set (snd (tick demo_world two_symbols))"
    and "Send 1 (Price (SStr ''AAPL'') (Some 150.25) 1700000000) \<in> set (snd (tick demo_world two_symbols))"
    and "\<not> (\<exists>e. Log e \<in> set (snd (tick demo_world two_symbols)))"
    and "fetched (snd (tick demo_world two_symbols)) = [SStr ''AAPL'', SStr ''MSFT'']"
    by auto
  with d k em ea fm fa m2 m1 show ?thesis by blast
qed

text \<open>
  C8, as the claim states it for every tick and every symbol, fails in a tick that the
  handler of line 233 ends early. Connection 1 is on \<^verbatim>\<open>BAD\<close> and connection 2 on \<^verbatim>\<open>AAPL\<close>;
  the price source has the price 150.25 for \<^verbatim>\<open>AAPL\<close>. The call for \<^verbatim>\<open>BAD\<close> raises, so the tick
  makes no call for \<^verbatim>\<open>AAPL\<close>, builds no payload for it and sends nothing to its subscriber.
\<close>

theorem aborted_tick_skips_subscribers:
  "fset (getitem (subscriptions bad_first) (SStr ''AAPL'')) = {2}
   \<and> get_latest_price (yf demo_world) (SStr ''AAPL'') = Inr (Some 150.25)
   \<and> fetched (snd (tick demo_world bad_first)) = [SStr ''BAD'']
   \<and> filter (about (SStr ''AAPL'')) (snd (tick demo_world bad_first)) = []
   \<and> filter (about (SStr ''BAD'')) (snd (tick demo_world bad_first)) = []"
  by (simp add: bad_first_def tick_eval registry_eval)

text \<open>
  C8, amended. For every tick and every symbol \<open>k\<close> that the tick gets to (the price helper
  has raised for no key before \<open>k\<close> in the list of line 219) and whose own price call
  returns: one payload \<^verbatim>\<open>{"type": "price", "symbol": k, "price": price, "ts": t}\<close> is built,
  and the price messages of the tick for \<open>k\<close> are exactly that payload, sent once to each
  of the connections subscribed to \<open>k\<close>, in the order in which line 225 lists them. The
  tick gets to every symbol when no price call raises.
\<close>

theorem fan_out:
  assumes "distinct (keys r)" and "reached w r k" and "get_latest_price (yf w) k = Inr price"
  shows "filter (about k) (snd (tick w r))
           = map (\<lambda>c. Send c (Price k price (now w k))) (conns_of (listing w k) r k)
       \<and> set (conns_of (listing w k) r k) = fset (getitem (subscriptions r) k)
       \<and> distinct (conns_of (listing w k) r k)
       \<and> ((\<forall>k' \<in> set (keys r). returns w k') \<longrightarrow> (\<forall>k' \<in> set (keys r). reached w r k'))"
  using assms poll_about [of "keys r" k w price r] reached_all [of r w]
  by (simp add: tick_events reached_def set_conns_of distinct_conns_of split: option.splits)

text \<open>
  C8 at a concrete input: connections 1 and 2 on \<^verbatim>\<open>AAPL\<close>, listed at line 225 with 2 first;
  the price source returns 150.25 at time 1700000000; both are sent the same message.
\<close>

theorem fan_out_witness:
  "distinct (keys one_symbol)
   \<and> reached demo_world one_symbol (SStr ''AAPL'')
   \<and> get_latest_price (yf demo_world) (SStr ''AAPL'') = Inr (Some 150.25)
   \<and> fset (getitem (subscriptions one_symbol) (SStr ''AAPL'')) = {1, 2}
   \<and> filter (about (SStr ''AAPL'')) (snd (tick demo_world one_symbol))
       = [Send 2 (Price (SStr ''AAPL'') (Some 150.25) 1700000000),
          Send 1 (Price (SStr ''AAPL'') (Some 150.25) 1700000000)]"
proof -
  have d: "distinct (keys one_symbol)" by (simp add: one_symbol_def registry_eval)
  have r: "reached demo_world one_symbol (SStr ''AAPL'')"
    by (simp add: reached_def one_symbol_def registry_eval)
  have f: "get_latest_price (yf demo_world) (SStr ''AAPL'') = Inr (Some 150.25)"
    by (simp add: tick_eval)
  have s: "fset (getitem (subscriptions one_symbol) (SStr ''AAPL'')) = {1, 2}"
    by (auto simp: one_symbol_def registry_eval)
  have c: "conns_of (listing demo_world (SStr ''AAPL'')) one_symbol (SStr ''AAPL'') = [2, 1]"
    by (simp add: one_symbol_def registry_eval tick_eval)
  have n: "now demo_world (SStr ''AAPL'') = 1700000000" by (simp add: demo_world_def)
  from fan_out [OF d r f] c n
  have "filter (about (SStr ''AAPL'')) (snd (tick demo_world one_symbol))
       = [Send 2 (Price (SStr ''AAPL'') (Some 150.25) 1700000000),
          Send 1 (Price (SStr ''AAPL'') (Some 150.25) 1700000000)]"
    by simp
  with d r f s show ?thesis by blast
qed

section \<open>When the maps stay in agreement\<close>

lemma truthy_values_accept: "truthy_values r \<Longrightarrow> truthy_values (accept r ws)"
  by (simp add: truthy_values_def accept_def)

lemma truthy_values_subscribe:
  assumes "truthy_values r" and "truthy k"
  shows "truthy_values (subscribe r ws k)"
  using assms
  by (auto simp: truthy_values_def subscribe_def add_new_def discard_prev_def split: option.splits)

lemma truthy_values_disconnect_cleanup:
  "truthy_values r \<Longrightarrow> truthy_values (disconnect_cleanup r ws)"
  by (auto simp: truthy_values_def disconnect_cleanup_def Let_def split: option.splits if_splits)

lemma truthy_values_remove_dead: "truthy_values r \<Longrightarrow> truthy_values (remove_dead r k ws)"
  by (auto simp: truthy_values_def remove_dead_def split: if_splits)

lemma consistent_init: "consistent init"
proof -
  have "truthy_values empty_registry"
    by (simp add: truthy_values_def empty_registry_def)
  moreover have "\<forall>ws. ws_to_symbol empty_registry ws = None"
    by (simp add: empty_registry_def)
  ultimately show ?thesis
    by (simp add: consistent_def init_def agree_empty)
qed

lemma entry_subscribe:
  "ws' \<noteq> ws \<Longrightarrow> ws_to_symbol (subscribe r ws k) ws' = ws_to_symbol r ws'"
  by (simp add: subscribe_def add_new_def discard_prev_def split: option.splits)

lemma entry_disconnect_cleanup:
  "ws_to_symbol r ws' = None \<Longrightarrow> ws_to_symbol (disconnect_cleanup r ws) ws' = None"
  by (simp add: disconnect_cleanup_def Let_def split: option.splits)

lemma consistent_handler_raised:
  assumes "consistent s"
  shows "consistent (handler_raised s ws e)"
  using assms
  by (auto simp: consistent_def handler_raised_def agree_disconnect_cleanup
        truthy_values_disconnect_cleanup entry_disconnect_cleanup split: if_splits)

lemma on_message_cases:
  "(\<exists>err. on_message r ws data = (r, Inr (ErrorMsg err)))
   \<or> on_message r ws data = (r, Inl AttributeError)
   \<or> (\<exists>k. truthy k \<and> on_message r ws data = (subscribe r ws k, Inr (Subscribed k)))
   \<or> on_message r ws data = (discard_prev r ws, Inl TypeError)"
proof (cases data)
  case (Inl e)
  then show ?thesis by (simp add: on_message_def)
next
  case (Inr obj)
  show ?thesis
  proof (cases obj)
    case (JObj kvs)
    show ?thesis
    proof (cases "map_of kvs ''action'' = Some (JStr ''subscribe'')")
      case True
      then show ?thesis
        using Inr JObj classify_truthy
        by (cases "classify (case map_of kvs ''symbol'' of None \<Rightarrow> JNull | Some v \<Rightarrow> v)")
           (auto simp: on_message_def)
    next
      case False
      then show ?thesis
        using Inr JObj by (auto simp: on_message_def split: option.splits)
    qed
  qed (use Inr in \<open>simp_all add: on_message_def\<close>)
qed

lemma consistent_step:
  assumes "consistent s" and "orderly s l" and "step s l = Some (s', evs)"
  shows "consistent s'"
proof (cases l)
  case (Accepted ws)
  with assms(3) have ph: "phase s ws = Connecting"
    and s': "s' = s\<lparr>reg := accept (reg s) ws, phase := (phase s)(ws := Receiving)\<rparr>"
    by (auto split: if_splits)
  from assms(1) ph have "ws_to_symbol (reg s) ws = None" by (simp add: consistent_def)
  with assms(1) have "\<forall>k. ws |\<notin>| getitem (subscriptions (reg s)) k"
    by (simp add: consistent_def agree_iff)
  with assms(1) have a: "agree (accept (reg s) ws)"
    by (simp add: consistent_def agree_accept)
  from assms(1) have t: "truthy_values (accept (reg s) ws)"
    by (simp add: consistent_def truthy_values_accept)
  have "\<forall>ws'. phase s' ws' = Connecting \<longrightarrow> ws_to_symbol (reg s') ws' = None"
    using assms(1) s' by (simp add: consistent_def accept_def)
  with a t s' show ?thesis
    by (simp add: consistent_def)
next
  case (Received ws data)
  with assms(3) have ph: "phase s ws = Receiving" by (auto split: if_splits)
  from assms(2) Received have nt: "snd (on_message (reg s) ws data) \<noteq> Inl TypeError"
    by (simp add: orderly_def)
  from on_message_cases [of "reg s" ws data] nt
  consider err where "on_message (reg s) ws data = (reg s, Inr (ErrorMsg err))"
    | "on_message (reg s) ws data = (reg s, Inl AttributeError)"
    | k where "truthy k" "on_message (reg s) ws data = (subscribe (reg s) ws k, Inr (Subscribed k))"
    by auto
  then show ?thesis
  proof cases
    case 1
    with assms(1,3) Received ph show ?thesis by (auto simp: consistent_def split: if_splits)
  next
    case 2
    with assms(1,3) Received ph show ?thesis
      by (auto simp: consistent_def handler_raised_def split: if_splits)
  next
    case 3
    with assms(3) Received ph
    have s': "s' = s\<lparr>reg := subscribe (reg s) ws k, phase := (phase s)(ws := Replying (Subscribed k))\<rparr>"
      by auto
    have "\<forall>ws'. phase s ws' = Connecting \<longrightarrow> ws_to_symbol (subscribe (reg s) ws k) ws' = None"
    proof (intro allI impI)
      fix ws' assume c: "phase s ws' = Connecting"
      with ph have "ws' \<noteq> ws" by auto
      then have "ws_to_symbol (subscribe (reg s) ws k) ws' = ws_to_symbol (reg s) ws'"
        by (rule entry_subscribe)
      with assms(1) c show "ws_to_symbol (subscribe (reg s) ws k) ws' = None"
        by (simp add: consistent_def)
    qed
    with assms(1) 3(1) s' show ?thesis
      by (auto simp: consistent_def agree_subscribe truthy_values_subscribe split: if_splits)
  qed
next
  case (ReceiveRaised ws e)
  with assms(1,3) show ?thesis
    by (auto simp: consistent_handler_raised split: if_splits)
next
  case (ReplySent ws)
  with assms(1,3) show ?thesis
    by (auto simp: consistent_def split: phase.splits if_splits)
next
  case (ReplyRaised ws e)
  with assms(1,3) show ?thesis
    by (auto simp: consistent_handler_raised split: phase.splits)
next
  case Woke
  with assms(1,3) show ?thesis
    by (auto simp: consistent_def split: poll_pc.splits)
next
  case (PriceReturned price ts order)
  with assms(1,3) show ?thesis
    by (auto simp: consistent_def agree_iff getitem_touch truthy_values_def split: poll_pc.splits)
next
  case (PriceRaised e)
  with assms(1,3) show ?thesis
    by (auto simp: consistent_def split: poll_pc.splits)
next
  case PushSent
  with assms(1,3) show ?thesis
    by (auto simp: consistent_def split: poll_pc.splits)
next
  case (PushRaised e)
  with assms(3) obtain k p ws conns rest where pc: "poll s = Pushing k p ws conns rest"
    and s': "s' = s\<lparr>reg := remove_dead (reg s) k ws, poll := next_conn k p conns rest\<rparr>"
    by (auto split: poll_pc.splits)
  from assms(2) PushRaised pc
  have "ws |\<in>| getitem (subscriptions (reg s)) k \<or> dict_get (ws_to_symbol (reg s)) ws = None"
    by (simp add: orderly_def)
  with assms(1)
  have "ws |\<in>| getitem (subscriptions (reg s)) k \<or> (\<forall>k'. ws |\<notin>| getitem (subscriptions (reg s)) k')"
    by (auto simp: consistent_def agree_def)
  with assms(1) have a: "agree (remove_dead (reg s) k ws)"
    by (simp add: consistent_def agree_remove_dead)
  from assms(1) have t: "truthy_values (remove_dead (reg s) k ws)"
    by (simp add: consistent_def truthy_values_remove_dead)
  have "\<forall>ws'. phase s' ws' = Connecting \<longrightarrow> ws_to_symbol (reg s') ws' = None"
    using assms(1) s' by (simp add: consistent_def remove_dead_def)
  with a t s' show ?thesis
    by (simp add: consistent_def)
qed

text \<open>
  Along every run from the start in which no step is out of order, the two maps agree:
  accept, subscribe, the cleanup after a disconnect and the cleanup after a failed send
  keep the agreement as long as the failed send is to a connection that has not moved to
  another symbol since line 225.
\<close>

lemma consistent_run:
  assumes "consistent s" and "orderly_run s ls" and "run s ls = Some (s', evs)"
  shows "consistent s'"
  using assms
proof (induction ls arbitrary: s evs)
  case Nil
  then show ?case by simp
next
  case (Cons l ls)
  from Cons.prems(3) obtain s1 e1 e2 where 1: "step s l = Some (s1, e1)"
    and 2: "run s1 ls = Some (s', e2)"
    by (auto split: option.splits prod.splits)
  from Cons.prems(2) 1 have o: "orderly s l" and os: "orderly_run s1 ls" by simp_all
  from consistent_step [OF Cons.prems(1) o 1] have "consistent s1" .
  from Cons.IH [OF this os 2] show ?case .
qed

lemma orderly_run_agree:
  assumes "orderly_run init ls" and "run init ls = Some (s, evs)"
  shows "agree (reg s)"
  using consistent_run [OF consistent_init assms] by (simp add: consistent_def)

text \<open>
  The second step out of order: after the command with a list as symbol, connection 1 is
  out of the set of \<^verbatim>\<open>AAPL\<close>, its entry still records \<^verbatim>\<open>AAPL\<close>, and its handler has ended
  without the cleanup.
\<close>

lemma list_as_symbol_leaves_entry:
  "(case run init list_as_symbol of
      None \<Rightarrow> False
    | Some (s, evs) \<Rightarrow>
        ws_to_symbol (reg s) 1 = Some (Some (SStr ''AAPL''))
      \<and> subscriptions (reg s) = [(SStr ''AAPL'', {||})]
      \<and> phase s 1 = Closed)"
  by (simp add: list_as_symbol_def task_eval registry_eval)

section \<open>A tick as a run of the poll loop\<close>

lemma run_append:
  "run s (xs @ ys) =
     (case run s xs of
        None \<Rightarrow> None
      | Some (s', evs) \<Rightarrow>
          (case run s' ys of None \<Rightarrow> None | Some (s'', evs') \<Rightarrow> Some (s'', evs @ evs')))"
  by (induction xs arbitrary: s) (auto split: option.splits)

lemma run_pushes:
  assumes "poll s = next_conn k p conns rest"
  shows "run s (push_labels w p conns)
           = Some (s\<lparr>reg := fst (send_all w k p conns (reg s)), poll := next_symbol rest\<rparr>,
                   snd (send_all w k p conns (reg s)))"
  using assms
proof (induction conns arbitrary: s)
  case Nil
  then show ?case by (simp add: next_conn_def)
next
  case (Cons c conns)
  let ?r = "if send_text w c p then reg s else remove_dead (reg s) k c"
  let ?s1 = "s\<lparr>reg := ?r, poll := next_conn k p conns rest\<rparr>"
  have st: "step s (if send_text w c p then PushSent else PushRaised (LibError ''send failed''))
              = Some (?s1, [Send c p])"
    using Cons.prems by (simp add: next_conn_def)
  have "poll ?s1 = next_conn k p conns rest" by simp
  from Cons.IH [OF this] st show ?case
    by (simp add: case_prod_beta)
qed

lemma run_symbols:
  assumes "poll s = next_symbol ks"
  shows "run s (poll_labels w ks (reg s))
           = Some (s\<lparr>reg := fst (poll_symbols w ks (reg s)), poll := Sleeping\<rparr>,
                   fst (snd (poll_symbols w ks (reg s)))
                   @ (case snd (snd (poll_symbols w ks (reg s))) of
                        None \<Rightarrow> [] | Some e \<Rightarrow> [Log e]))"
  using assms
proof (induction ks arbitrary: s)
  case Nil
  then show ?case by (simp add: next_symbol_def)
next
  case (Cons k ks)
  then have pc: "poll s = Fetching k ks" by (simp add: next_symbol_def)
  show ?case
  proof (cases "get_latest_price (yf w) k")
    case (Inl e)
    with pc show ?thesis by simp
  next
    case (Inr price)
    let ?p = "Price k price (now w k)"
    let ?r0 = "(reg s)\<lparr>subscriptions := touch (subscriptions (reg s)) k\<rparr>"
    let ?cs = "conns_of (listing w k) (reg s) k"
    let ?s1 = "s\<lparr>reg := ?r0, poll := next_conn k ?p ?cs ks\<rparr>"
    let ?s2 = "?s1\<lparr>reg := fst (send_all w k ?p ?cs ?r0), poll := next_symbol ks\<rparr>"
    have st: "step s (PriceReturned price (now w k) (listing w k)) = Some (?s1, [Fetch k])"
      using pc by simp
    have ps: "run ?s1 (push_labels w ?p ?cs) = Some (?s2, snd (send_all w k ?p ?cs ?r0))"
      using run_pushes [of ?s1 k ?p ?cs ks w] by simp
    have "poll ?s2 = next_symbol ks" by simp
    from Cons.IH [OF this] have rest:
      "run ?s2 (poll_labels w ks (fst (send_all w k ?p ?cs ?r0)))
         = Some (?s2\<lparr>reg := fst (poll_symbols w ks (fst (send_all w k ?p ?cs ?r0))), poll := Sleeping\<rparr>,
                 fst (snd (poll_symbols w ks (fst (send_all w k ?p ?cs ?r0))))
                 @ (case snd (snd (poll_symbols w ks (fst (send_all w k ?p ?cs ?r0)))) of
                      None \<Rightarrow> [] | Some e \<Rightarrow> [Log e]))"
      by simp
    from Inr st ps rest show ?thesis
      by (simp add: run_append case_prod_beta)
  qed
qed

text \<open>
  The function \<open>tick\<close> is the run of the poll loop from waking up to sleeping again when
  no handler runs in between: same registry at the end, same events.
\<close>

lemma tick_is_a_run:
  assumes "poll s = Sleeping"
  shows "run s (Woke # poll_labels w (keys (reg s)) (reg s))
           = Some (s\<lparr>reg := fst (tick w (reg s))\<rparr>, snd (tick w (reg s)))"
proof -
  let ?s1 = "s\<lparr>poll := next_symbol (keys (reg s))\<rparr>"
  have st: "step s Woke = Some (?s1, [])" using assms by simp
  have "poll ?s1 = next_symbol (keys (reg ?s1))" by simp
  from run_symbols [OF this, of w] have r:
    "run ?s1 (poll_labels w (keys (reg s)) (reg s))
       = Some (?s1\<lparr>reg := fst (poll_symbols w (keys (reg s)) (reg s)), poll := Sleeping\<rparr>,
               fst (snd (poll_symbols w (keys (reg s)) (reg s)))
               @ (case snd (snd (poll_symbols w (keys (reg s)) (reg s))) of
                    None \<Rightarrow> [] | Some e \<Rightarrow> [Log e]))"
    by simp
  have f: "fst (tick w (reg s)) = fst (poll_symbols w (keys (reg s)) (reg s))"
    by (cases "keys (reg s) = []")
       (simp_all add: tick_def Let_def case_prod_beta split: option.splits)
  have e: "s\<lparr>reg := fst (tick w (reg s)), poll := Sleeping\<rparr> = s\<lparr>reg := fst (tick w (reg s))\<rparr>"
    using assms by simp
  from st r f e show ?thesis
    by (simp add: tick_events)
qed

section \<open>A broadcast interleaved with the handlers\<close>

text \<open>
  Between line 223 and line 225 the poll loop does not wait, so the list of line 225 is
  taken from the registry as it is when the price call returns. While the loop waits in a
  \<^verbatim>\<open>send_text\<close> of lines 226-228 the handlers may run, accept, subscribe, move and
  disconnect connections; the sends of the broadcast still go to the connections of that
  list, each once, with the one payload of line 224.
\<close>

lemma no_price_reply_init: "no_price_reply init"
  by (simp add: no_price_reply_def init_def)

lemma on_message_reply:
  assumes "on_message r ws data = (r', Inr msg)"
  shows "\<not> price_msg msg"
  using assms on_message_cases [of r ws data] by auto

lemma no_price_reply_step:
  assumes "no_price_reply s" and "step s l = Some (s', evs)"
  shows "no_price_reply s'"
proof (cases l)
  case (Received ws data)
  with assms on_message_reply [of "reg s" ws data] show ?thesis
    by (auto simp: no_price_reply_def handler_raised_def split: if_splits prod.splits sum.splits)
qed (use assms in \<open>auto simp: no_price_reply_def handler_raised_def
       split: if_splits phase.splits poll_pc.splits\<close>)

lemma no_price_reply_run:
  assumes "no_price_reply s" and "run s ls = Some (s', evs)"
  shows "no_price_reply s'"
  using assms
proof (induction ls arbitrary: s evs)
  case Nil
  then show ?case by simp
next
  case (Cons l ls)
  then show ?case
    by (auto split: option.splits prod.splits dest: no_price_reply_step)
qed

lemma about_not_price: "\<not> price_msg msg \<Longrightarrow> \<not> about k (Send c msg)"
  by (cases msg) simp_all

lemma handler_step:
  assumes "handler_label l" and "no_price_reply s" and "step s l = Some (s', evs)"
  shows "poll s' = poll s \<and> filter (about k) evs = []"
proof (cases l)
  case (Received ws data)
  with assms show ?thesis
    by (auto simp: handler_raised_def split: if_splits prod.splits sum.splits)
next
  case (ReplySent ws)
  with assms show ?thesis
    by (auto simp: no_price_reply_def about_not_price split: phase.splits)
next
  case (ReplyRaised ws e)
  with assms show ?thesis
    by (auto simp: no_price_reply_def about_not_price handler_raised_def split: phase.splits)
qed (use assms in \<open>auto simp: handler_raised_def split: if_splits\<close>)

lemma push_step:
  assumes "push_label l" and "poll s = Pushing k p c conns rest" and "step s l = Some (s', evs)"
  shows "poll s' = next_conn k p conns rest \<and> evs = [Send c p]"
  using assms by (cases l) auto

lemma push_step_none:
  assumes "push_label l" and "step s l = Some (s', evs)"
  shows "\<exists>k p c conns rest. poll s = Pushing k p c conns rest"
  using assms by (cases l) (auto split: poll_pc.splits)

lemma broadcast_interleaved:
  assumes "poll s = next_conn k (Price k price ts) conns rest"
    and "no_price_reply s"
    and "run s ls = Some (s', evs)"
    and "\<forall>l \<in> set ls. handler_label l \<or> push_label l"
    and "length (filter push_label ls) = length conns"
  shows "filter (about k) evs = map (\<lambda>c. Send c (Price k price ts)) conns
       \<and> poll s' = next_symbol rest"
  using assms
proof (induction ls arbitrary: s conns evs)
  case Nil
  then show ?case by (simp add: next_conn_def)
next
  case (Cons l ls)
  from Cons.prems(3) obtain s1 e1 e2 where st: "step s l = Some (s1, e1)"
    and rn: "run s1 ls = Some (s', e2)" and ev: "evs = e1 @ e2"
    by (auto split: option.splits prod.splits)
  have np: "no_price_reply s1" using Cons.prems(2) st by (rule no_price_reply_step)
  show ?case
  proof (cases "push_label l")
    case True
    with Cons.prems(5) obtain c cs where cs: "conns = c # cs"
      by (cases conns) auto
    with Cons.prems(1) have pc: "poll s = Pushing k (Price k price ts) c cs rest"
      by (simp add: next_conn_def)
    from push_step [OF True pc st]
    have p1: "poll s1 = next_conn k (Price k price ts) cs rest"
      and e1: "e1 = [Send c (Price k price ts)]" by simp_all
    from Cons.prems(4,5) True cs
    have "filter (about k) e2 = map (\<lambda>c. Send c (Price k price ts)) cs
            \<and> poll s' = next_symbol rest"
      by (intro Cons.IH [OF p1 np rn]) auto
    with ev e1 cs show ?thesis by simp
  next
    case False
    with Cons.prems(4) have h: "handler_label l" by simp
    from handler_step [OF h Cons.prems(2) st, of k]
    have p1: "poll s1 = poll s" and e1: "filter (about k) e1 = []" by simp_all
    from Cons.prems(1) p1 have p1': "poll s1 = next_conn k (Price k price ts) conns rest"
      by simp
    from Cons.prems(4,5) False
    have "filter (about k) e2 = map (\<lambda>c. Send c (Price k price ts)) conns
            \<and> poll s' = next_symbol rest"
      by (intro Cons.IH [OF p1' np rn]) auto
    with ev e1 show ?thesis by simp
  qed
qed

lemma broadcast_recipients:
  assumes "poll s = Fetching k rest"
    and "no_price_reply s"
    and "run s (PriceReturned price ts order # ls) = Some (s', evs)"
    and "\<forall>l \<in> set ls. handler_label l \<or> push_label l"
    and "length (filter push_label ls) = length (conns_of order (reg s) k)"
  shows "filter (about k) evs
           = map (\<lambda>c. Send c (Price k price ts)) (conns_of order (reg s) k)
       \<and> set (conns_of order (reg s) k) = fset (getitem (subscriptions (reg s)) k)
       \<and> distinct (conns_of order (reg s) k)
       \<and> poll s' = next_symbol rest"
proof -
  let ?s1 = "s\<lparr>reg := (reg s)\<lparr>subscriptions := touch (subscriptions (reg s)) k\<rparr>,
               poll := next_conn k (Price k price ts) (conns_of order (reg s) k) rest\<rparr>"
  have st: "step s (PriceReturned price ts order) = Some (?s1, [Fetch k])"
    using assms(1) by simp
  with assms(3) obtain e2 where rn: "run ?s1 ls = Some (s', e2)" and ev: "evs = Fetch k # e2"
    by (auto split: option.splits prod.splits)
  have np: "no_price_reply ?s1" using assms(2) by (simp add: no_price_reply_def)
  have pc: "poll ?s1 = next_conn k (Price k price ts) (conns_of order (reg s) k) rest" by simp
  from broadcast_interleaved [OF pc np rn assms(4,5)] ev
  show ?thesis by (simp add: set_conns_of distinct_conns_of)
qed

end
